theory Spec2Isabelle
  imports Main "HOL-Library.Sublist"
begin

section \<open>Data model of the asset-caching service worker (sw.js)\<close>

text \<open>
  A request is identified by its URL, of which the worker reads \<open>origin\<close> and
  \<open>pathname\<close>; the whole URL (with the query string) is the key of a cache entry.
  Requests are GET requests, the only ones the Cache API stores.
\<close>

record url =
  origin :: string
  pathname :: string
  search :: string

text \<open>
  A response carries its HTTP status, a payload and the field values of its
  \<open>Vary\<close> header. \<open>Response.ok\<close> is the platform's derived flag: the status is in
  the range 200 to 299.
\<close>

record response =
  status :: nat
  body :: string
  vary :: "string list"

definition ok :: "response \<Rightarrow> bool" where
  "ok r = (200 \<le> status r \<and> status r \<le> 299)"

text \<open>
  A rejected promise carries an error. \<open>fetch\<close> rejects only when no response arrives
  at all; a server error is a response whose \<open>ok\<close> flag is false.
\<close>

datatype error = NetworkError string | TypeError string

type_synonym network = "url \<Rightarrow> error + response"

text \<open>
  A partition (a \<open>Cache\<close>) is a list of entries in insertion order, the order of
  \<open>cache.keys()\<close>; cache storage lists the named partitions in creation order, the
  order of \<open>caches.keys()\<close>.
\<close>

type_synonym partition = "(url \<times> response) list"

text \<open>
  The state of the worker and its environment: the cache storage, the log of the
  requests that went to the network (oldest first), the \<open>cache.put\<close> calls that were
  started and not awaited (oldest first), the background fetches of
  \<open>staleWhileRevalidate\<close> that nobody waits for and that have no answer yet (oldest
  first; partition, request and the \<open>cachedResponse\<close> their handlers hold), and the
  two lifecycle signals.
\<close>

record worker_state =
  storage :: "(string \<times> partition) list"
  netlog :: "url list"
  pending :: "(string \<times> url \<times> response) list"
  inflight :: "(string \<times> url \<times> response option) list"
  skipWaitingCalled :: bool
  clientsClaimed :: bool

text \<open>\<open>self.location\<close>: the worker's origin and the directory of its script.\<close>

record location =
  loc_origin :: string
  loc_dir :: string

subsection \<open>Constants of sw.js\<close>

definition CACHE_VERSION :: string where
  "CACHE_VERSION = ''v1''"

definition CACHE_NAMES_models :: string where
  "CACHE_NAMES_models = ''penta-3d-models-'' @ CACHE_VERSION"

definition CACHE_NAMES_static :: string where
  "CACHE_NAMES_static = ''penta-static-'' @ CACHE_VERSION"

definition CACHE_NAMES_runtime :: string where
  "CACHE_NAMES_runtime = ''penta-runtime-'' @ CACHE_VERSION"

text \<open>\<open>Object.values(CACHE_NAMES)\<close>, in the order of the object literal.\<close>

definition CACHE_NAMES_values :: "string list" where
  "CACHE_NAMES_values = [CACHE_NAMES_models, CACHE_NAMES_static, CACHE_NAMES_runtime]"

definition MODEL_ASSETS :: "string list" where
  "MODEL_ASSETS =
    [''./assets/3d/logo_3d_just_icon.glb'',
     ''./assets/3d/corparete_event.glb'',
     ''./assets/3d/decoration.glb'',
     ''./assets/3d/staff.glb'',
     ''./assets/3d/technical.glb'',
     ''./assets/3d/transfer.glb'']"

definition STATIC_ASSETS :: "string list" where
  "STATIC_ASSETS =
    [''./assets/css/main.css'',
     ''./assets/css/components.css'',
     ''./assets/js/main.js'',
     ''./assets/images/logo.png'']"

subsection \<open>Platform primitives\<close>

text \<open>
  A manifest entry is a relative reference starting with \<open>./\<close>; \<open>fetch\<close> and
  \<open>cache.put\<close> resolve it against the directory of the running script.
\<close>

definition resolve_url :: "location \<Rightarrow> string \<Rightarrow> url" where
  "resolve_url loc s =
     \<lparr>origin = loc_origin loc,
      pathname = loc_dir loc @ (if take 2 s = ''./'' then drop 2 s else s),
      search = ''''\<rparr>"

text \<open>\<open>String.prototype.endsWith\<close>.\<close>

definition endsWith :: "string \<Rightarrow> string \<Rightarrow> bool" where
  "endsWith s suf = suffix suf s"

text \<open>\<open>caches.keys()\<close> and \<open>cache.keys()\<close>.\<close>

definition caches_keys :: "worker_state \<Rightarrow> string list" where
  "caches_keys st = map fst (storage st)"

text \<open>\<open>caches.open(name)\<close> creates the partition when it does not exist yet.\<close>

definition caches_open :: "string \<Rightarrow> worker_state \<Rightarrow> worker_state" where
  "caches_open name st =
     (if name \<in> set (caches_keys st) then st
      else st\<lparr>storage := storage st @ [(name, [])]\<rparr>)"

text \<open>\<open>caches.delete(name)\<close>.\<close>

definition caches_delete :: "string \<Rightarrow> worker_state \<Rightarrow> worker_state" where
  "caches_delete name st = st\<lparr>storage := filter (\<lambda>e. fst e \<noteq> name) (storage st)\<rparr>"

definition partition_of :: "worker_state \<Rightarrow> string \<Rightarrow> partition" where
  "partition_of st name = (case map_of (storage st) name of None \<Rightarrow> [] | Some p \<Rightarrow> p)"

text \<open>
  \<open>cache.match(request)\<close>: the stored response, or \<open>undefined\<close> (\<open>None\<close>). A request
  is looked up by its URL: the lookups are for the very request that was stored, for
  which the comparison of the request headers a \<open>Vary\<close> header names agrees.
\<close>

definition cache_match :: "worker_state \<Rightarrow> string \<Rightarrow> url \<Rightarrow> response option" where
  "cache_match st name req = map_of (partition_of st name) req"

text \<open>
  \<open>cache.put(request, response)\<close> on one partition: an entry with the same key is
  replaced, the new entry is the newest one.
\<close>

definition put_entry :: "url \<Rightarrow> response \<Rightarrow> partition \<Rightarrow> partition" where
  "put_entry k r p = filter (\<lambda>e. fst e \<noteq> k) p @ [(k, r)]"

text \<open>
  The write of an entry into the partition called \<open>name\<close>. The write of a handle
  whose partition has been deleted from storage is not visible in storage.
\<close>

definition write_entry :: "string \<Rightarrow> url \<Rightarrow> response \<Rightarrow> worker_state \<Rightarrow> worker_state" where
  "write_entry name k r st =
     st\<lparr>storage := map (\<lambda>(n, p). if n = name then (n, put_entry k r p) else (n, p)) (storage st)\<rparr>"

text \<open>
  The responses the platform's cache takes: \<open>Cache.put\<close> rejects with a TypeError a
  response with status 206 and a response whose \<open>Vary\<close> header contains \<open>*\<close>, and
  writes nothing.
\<close>

definition storable :: "response \<Rightarrow> bool" where
  "storable r = (status r \<noteq> 206 \<and> ''*'' \<notin> set (vary r))"

text \<open>
  \<open>cache.put(request, response)\<close>, settled: rejected (\<open>Inl\<close>) with the storage
  unchanged, or fulfilled (\<open>Inr\<close>) with the entry written. The requests are GET
  requests over http(s), the responses given to it are unread (a fresh response or a
  clone), and the storage has room, so these are the only rejections.
\<close>

definition cache_put :: "string \<Rightarrow> url \<Rightarrow> response \<Rightarrow> worker_state \<Rightarrow> error + worker_state" where
  "cache_put name k r st =
     (if status r = 206 then Inl (TypeError ''Partial response (status code 206) is unsupported'')
      else if ''*'' \<in> set (vary r) then Inl (TypeError ''Vary header contains *'')
      else Inr (write_entry name k r st))"

text \<open>Sending a request to the network: the call is logged, the oracle answers.\<close>

definition log_fetch :: "url \<Rightarrow> worker_state \<Rightarrow> worker_state" where
  "log_fetch req st = st\<lparr>netlog := netlog st @ [req]\<rparr>"

text \<open>
  A \<open>cache.put\<close> that is started and not awaited: the write is queued and takes
  effect when it settles, after the function that started it has returned.
\<close>

definition start_put :: "string \<Rightarrow> url \<Rightarrow> response \<Rightarrow> worker_state \<Rightarrow> worker_state" where
  "start_put name k r st = st\<lparr>pending := pending st @ [(name, k, r)]\<rparr>"

text \<open>
  The oldest pending write settles; all pending writes settle, oldest first. Nobody
  handles the rejection of a put that was not awaited: it writes nothing.
\<close>

definition settle_one :: "worker_state \<Rightarrow> worker_state" where
  "settle_one st =
     (case pending st of
        [] \<Rightarrow> st
      | (name, k, r) # rest \<Rightarrow>
          (case cache_put name k r (st\<lparr>pending := rest\<rparr>) of
             Inl e \<Rightarrow> st\<lparr>pending := rest\<rparr>
           | Inr st' \<Rightarrow> st'))"

fun apply_puts :: "(string \<times> url \<times> response) list \<Rightarrow> worker_state \<Rightarrow> worker_state" where
  "apply_puts [] st = st"
| "apply_puts ((name, k, r) # rest) st =
     apply_puts rest (case cache_put name k r st of Inl e \<Rightarrow> st | Inr st' \<Rightarrow> st')"

definition settle_all :: "worker_state \<Rightarrow> worker_state" where
  "settle_all st = apply_puts (pending st) (st\<lparr>pending := []\<rparr>)"

section \<open>The three strategies\<close>

text \<open>
  A strategy is an async function: it resolves with a value (\<open>Inr\<close>; the value is a
  response or \<open>undefined\<close>, written \<open>None\<close>) or rejects with an error (\<open>Inl\<close>).
  Each one is given the answer of the network to the \<open>fetch\<close> call it waits for. The
  state it returns is the state when its promise settles, with the work it started and
  did not wait for among the pending writes and the background fetches.
\<close>

type_synonym outcome = "error + response option"

text \<open>
  \<open>cacheFirst\<close> (sw.js, lines 134-152). The \<open>cache.put\<close> of the miss branch is not
  awaited.
\<close>

definition cacheFirst :: "network \<Rightarrow> url \<Rightarrow> string \<Rightarrow> worker_state \<Rightarrow> outcome \<times> worker_state" where
  "cacheFirst net request cacheName st =
     (let st1 = caches_open cacheName st in
      case cache_match st1 cacheName request of
        Some cachedResponse \<Rightarrow> (Inr (Some cachedResponse), st1)
      | None \<Rightarrow>
          (let st2 = log_fetch request st1 in
           case net request of
             Inl e \<Rightarrow> (Inl e, st2)
           | Inr networkResponse \<Rightarrow>
               (Inr (Some networkResponse),
                if ok networkResponse then start_put cacheName request networkResponse st2
                else st2)))"

text \<open>
  The handlers of \<open>fetchPromise\<close> in \<open>staleWhileRevalidate\<close> (sw.js, lines 163-168),
  run on the answer of the fetch: \<open>then\<close> starts the store of an ok response, without
  awaiting it, and passes the response on; \<open>catch\<close> resolves with the value
  \<open>cachedResponse\<close> had at the lookup. The result is what \<open>fetchPromise\<close> resolves
  with, and the state after the handler.
\<close>

definition fetchPromise_settled :: "error + response \<Rightarrow> string \<Rightarrow> url \<Rightarrow> response option \<Rightarrow> worker_state \<Rightarrow> response option \<times> worker_state" where
  "fetchPromise_settled answer cacheName request cachedResponse st =
     (case answer of
        Inr networkResponse \<Rightarrow>
          (Some networkResponse,
           if ok networkResponse then start_put cacheName request networkResponse st else st)
      | Inl e \<Rightarrow> (cachedResponse, st))"

text \<open>A background fetch that was sent and that nobody waits for.\<close>

definition start_background_fetch :: "string \<Rightarrow> url \<Rightarrow> response option \<Rightarrow> worker_state \<Rightarrow> worker_state" where
  "start_background_fetch name k c st = st\<lparr>inflight := inflight st @ [(name, k, c)]\<rparr>"

text \<open>
  \<open>staleWhileRevalidate\<close> (sw.js, lines 158-172). The fetch is sent in both cases. The
  function returns \<open>cachedResponse || fetchPromise\<close>: with a cached response it returns
  at once, before the network has answered, and \<open>fetchPromise\<close> stays in flight;
  without one it waits for \<open>fetchPromise\<close> and resolves with what that resolves with.
\<close>

definition staleWhileRevalidate :: "network \<Rightarrow> url \<Rightarrow> string \<Rightarrow> worker_state \<Rightarrow> outcome \<times> worker_state" where
  "staleWhileRevalidate net request cacheName st =
     (let st1 = caches_open cacheName st;
          cachedResponse = cache_match st1 cacheName request;
          st2 = log_fetch request st1
      in case cachedResponse of
           Some c \<Rightarrow> (Inr (Some c), start_background_fetch cacheName request cachedResponse st2)
         | None \<Rightarrow>
             (let (fetchPromise, st3) =
                    fetchPromise_settled (net request) cacheName request cachedResponse st2
              in (Inr fetchPromise, st3)))"

text \<open>
  The network answers the oldest background fetch, and its handlers run; the network
  answers all of them, oldest first.
\<close>

definition answer_one :: "network \<Rightarrow> worker_state \<Rightarrow> worker_state" where
  "answer_one net st =
     (case inflight st of
        [] \<Rightarrow> st
      | (name, k, c) # rest \<Rightarrow>
          snd (fetchPromise_settled (net k) name k c (st\<lparr>inflight := rest\<rparr>)))"

fun answer_each :: "network \<Rightarrow> (string \<times> url \<times> response option) list \<Rightarrow> worker_state \<Rightarrow> worker_state" where
  "answer_each net [] st = st"
| "answer_each net ((name, k, c) # rest) st =
     answer_each net rest (snd (fetchPromise_settled (net k) name k c st))"

definition answer_all :: "network \<Rightarrow> worker_state \<Rightarrow> worker_state" where
  "answer_all net st = answer_each net (inflight st) (st\<lparr>inflight := []\<rparr>)"

text \<open>\<open>networkFirst\<close> (sw.js, lines 178-194).\<close>

definition networkFirst :: "network \<Rightarrow> url \<Rightarrow> string \<Rightarrow> worker_state \<Rightarrow> outcome \<times> worker_state" where
  "networkFirst net request cacheName st =
     (let st1 = caches_open cacheName st;
          st2 = log_fetch request st1
      in case net request of
           Inr networkResponse \<Rightarrow>
             (Inr (Some networkResponse),
              if ok networkResponse then start_put cacheName request networkResponse st2
              else st2)
         | Inl e \<Rightarrow>
             (case cache_match st2 cacheName request of
                Some cachedResponse \<Rightarrow> (Inr (Some cachedResponse), st2)
              | None \<Rightarrow> (Inl e, st2)))"

section \<open>The fetch listener\<close>

text \<open>\<open>url.pathname.endsWith('.glb') || url.pathname.endsWith('.gltf')\<close>\<close>

definition is_model_path :: "string \<Rightarrow> bool" where
  "is_model_path p = (endsWith p ''.glb'' \<or> endsWith p ''.gltf'')"

text \<open>\<open>url.pathname.match(/\.(css|js|png|jpg|jpeg|svg|woff2?)$/)\<close>\<close>

definition static_extensions :: "string list" where
  "static_extensions = [''css'', ''js'', ''png'', ''jpg'', ''jpeg'', ''svg'', ''woff'', ''woff2'']"

definition is_static_path :: "string \<Rightarrow> bool" where
  "is_static_path p = list_ex (\<lambda>ext. endsWith p (CHR ''.'' # ext)) static_extensions"

text \<open>\<open>url.pathname.endsWith('.html') || url.pathname === '/'\<close>\<close>

definition is_document_path :: "string \<Rightarrow> bool" where
  "is_document_path p = (endsWith p ''.html'' \<or> p = ''/'')"

text \<open>
  The listener (sw.js, lines 109-128). \<open>None\<close>: it returns without calling
  \<open>respondWith\<close>, the request is left to the browser; \<open>Some x\<close>: it responds with the
  promise of the strategy, which settles as \<open>x\<close>.
\<close>

definition on_fetch :: "location \<Rightarrow> network \<Rightarrow> url \<Rightarrow> worker_state \<Rightarrow> outcome option \<times> worker_state" where
  "on_fetch loc net request st =
     (if origin request \<noteq> loc_origin loc then (None, st)
      else if is_model_path (pathname request) then
        (let (x, st') = cacheFirst net request CACHE_NAMES_models st in (Some x, st'))
      else if is_static_path (pathname request) then
        (let (x, st') = staleWhileRevalidate net request CACHE_NAMES_static st in (Some x, st'))
      else if is_document_path (pathname request) then
        (let (x, st') = networkFirst net request CACHE_NAMES_runtime st in (Some x, st'))
      else (None, st))"

section \<open>Lifecycle\<close>

text \<open>
  The \<open>try\<close> statement that install's loop, \<open>preloadModels\<close> and the page's
  \<open>preloadWithFetch\<close> share: fetch, store when the response is ok (the put is awaited);
  the \<open>catch\<close> swallows a rejected fetch and a rejected put.
\<close>

definition fetch_and_put :: "network \<Rightarrow> string \<Rightarrow> url \<Rightarrow> worker_state \<Rightarrow> worker_state" where
  "fetch_and_put net cacheName u st =
     (let st1 = log_fetch u st in
      case net u of
        Inl e \<Rightarrow> st1
      | Inr response \<Rightarrow>
          if ok response then
            (case cache_put cacheName u response st1 of
               Inl e \<Rightarrow> st1
             | Inr st2 \<Rightarrow> st2)
          else st1)"

text \<open>The \<open>for (const model of MODEL_ASSETS)\<close> loop of the install handler.\<close>

fun install_models :: "location \<Rightarrow> network \<Rightarrow> string list \<Rightarrow> worker_state \<Rightarrow> worker_state" where
  "install_models loc net [] st = st"
| "install_models loc net (model # rest) st =
     install_models loc net rest (fetch_and_put net CACHE_NAMES_models (resolve_url loc model) st)"

text \<open>
  \<open>cache.addAll(requests)\<close>, the platform's bulk store: every request is sent; when
  one fetch rejects, or one response is not ok, has status 206 or has a \<open>Vary\<close> header
  containing \<open>*\<close>, the promise rejects with a TypeError and nothing is stored;
  otherwise every response is stored.
\<close>

definition addAll_accepts :: "network \<Rightarrow> url \<Rightarrow> bool" where
  "addAll_accepts net u =
     (case net u of
        Inl e \<Rightarrow> False
      | Inr r \<Rightarrow> ok r \<and> storable r)"

fun put_all :: "network \<Rightarrow> string \<Rightarrow> url list \<Rightarrow> worker_state \<Rightarrow> worker_state" where
  "put_all net cacheName [] st = st"
| "put_all net cacheName (u # us) st =
     put_all net cacheName us
       (case net u of Inl e \<Rightarrow> st | Inr r \<Rightarrow> write_entry cacheName u r st)"

definition cache_addAll :: "network \<Rightarrow> string \<Rightarrow> url list \<Rightarrow> worker_state \<Rightarrow> (error + unit) \<times> worker_state" where
  "cache_addAll net cacheName reqs st =
     (let st1 = st\<lparr>netlog := netlog st @ reqs\<rparr> in
      if list_all (addAll_accepts net) reqs then (Inr (), put_all net cacheName reqs st1)
      else (Inl (TypeError ''Request failed''), st1))"

text \<open>The install handler (sw.js, lines 39-72): the promise given to \<open>waitUntil\<close>.\<close>

definition install :: "location \<Rightarrow> network \<Rightarrow> worker_state \<Rightarrow> (error + unit) \<times> worker_state" where
  "install loc net st =
     (let st1 = caches_open CACHE_NAMES_models st;
          st2 = install_models loc net MODEL_ASSETS st1;
          st3 = caches_open CACHE_NAMES_static st2
      in case cache_addAll net CACHE_NAMES_static (map (resolve_url loc) STATIC_ASSETS) st3 of
           (Inl e, st4) \<Rightarrow> (Inl e, st4)
         | (Inr u, st4) \<Rightarrow> (Inr (), st4\<lparr>skipWaitingCalled := True\<rparr>))"

text \<open>The activate handler (sw.js, lines 77-104).\<close>

definition activate :: "worker_state \<Rightarrow> worker_state" where
  "activate st =
     (let cacheNames = caches_keys st;
          st1 = fold caches_delete
                  (filter (\<lambda>name. name \<notin> set CACHE_NAMES_values) cacheNames) st
      in st1\<lparr>clientsClaimed := True\<rparr>)"

section \<open>Control channel\<close>

record cache_status =
  version :: string
  cachedModels :: "url list"
  totalModels :: nat
  cachedCount :: nat

datatype reply = Status cache_status | Success bool

text \<open>A message event: the \<open>type\<close> field of its data and its reply ports.\<close>

record message_event =
  msg_type :: string
  ports :: "nat list"

text \<open>\<open>getCacheStatus\<close> (sw.js, lines 221-231).\<close>

definition getCacheStatus :: "worker_state \<Rightarrow> cache_status \<times> worker_state" where
  "getCacheStatus st =
     (let st1 = caches_open CACHE_NAMES_models st;
          modelKeys = map fst (partition_of st1 CACHE_NAMES_models)
      in (\<lparr>version = CACHE_VERSION,
           cachedModels = modelKeys,
           totalModels = length MODEL_ASSETS,
           cachedCount = length modelKeys\<rparr>, st1))"

text \<open>\<open>clearAllCaches\<close> (sw.js, lines 236-240).\<close>

definition clearAllCaches :: "worker_state \<Rightarrow> worker_state" where
  "clearAllCaches st = fold caches_delete (caches_keys st) st"

text \<open>\<open>preloadModels\<close> (sw.js, lines 245-262).\<close>

fun preload_loop :: "network \<Rightarrow> string \<Rightarrow> url list \<Rightarrow> worker_state \<Rightarrow> worker_state" where
  "preload_loop net cacheName [] st = st"
| "preload_loop net cacheName (model # rest) st =
     preload_loop net cacheName rest
       (case cache_match st cacheName model of
          Some cached \<Rightarrow> st
        | None \<Rightarrow> fetch_and_put net cacheName model st)"

definition preloadModels :: "location \<Rightarrow> network \<Rightarrow> worker_state \<Rightarrow> worker_state" where
  "preloadModels loc net st =
     preload_loop net CACHE_NAMES_models (map (resolve_url loc) MODEL_ASSETS)
       (caches_open CACHE_NAMES_models st)"

text \<open>
  \<open>event.ports[0].postMessage(reply)\<close> in the \<open>then\<close> callback: the list of the
  messages posted, or the TypeError of reading \<open>postMessage\<close> of \<open>undefined\<close> when the
  event carries no port.
\<close>

definition post_reply :: "message_event \<Rightarrow> reply \<Rightarrow> error + (nat \<times> reply) list" where
  "post_reply ev r =
     (case ports ev of
        [] \<Rightarrow> Inl (TypeError ''event.ports[0] is undefined'')
      | p # ps \<Rightarrow> Inr [(p, r)])"

text \<open>The message listener (sw.js, lines 199-216).\<close>

definition on_message :: "location \<Rightarrow> network \<Rightarrow> message_event \<Rightarrow> worker_state \<Rightarrow> (error + (nat \<times> reply) list) \<times> worker_state" where
  "on_message loc net ev st =
     (if msg_type ev = ''CACHE_STATUS'' then
        (let (status, st') = getCacheStatus st in (post_reply ev (Status status), st'))
      else if msg_type ev = ''CLEAR_CACHE'' then
        (post_reply ev (Success True), clearAllCaches st)
      else if msg_type ev = ''PRELOAD_MODELS'' then
        (post_reply ev (Success True), preloadModels loc net st)
      else (Inr [], st))"

section \<open>Page-side preloader (animations.js, ModelPreloader)\<close>

definition ModelPreloader_models :: "string list" where
  "ModelPreloader_models =
    [''./assets/3d/logo_3d_just_icon.glb'',
     ''./assets/3d/staff.glb'',
     ''./assets/3d/corparete_event.glb'',
     ''./assets/3d/technical.glb'',
     ''./assets/3d/transfer.glb'',
     ''./assets/3d/decoration.glb'']"

text \<open>\<open>preloadWithFetch(url, cache)\<close> (animations.js, lines 725-738).\<close>

definition preloadWithFetch :: "network \<Rightarrow> url \<Rightarrow> string \<Rightarrow> worker_state \<Rightarrow> worker_state" where
  "preloadWithFetch net u cacheName st = fetch_and_put net cacheName u st"

text \<open>
  \<open>preloadAllModels\<close> and \<open>ensureAllCached\<close> (animations.js, lines 699-751): for each
  model that has no cached match, \<open>preloadWithFetch\<close>. The page resolves the relative
  references against its own location \<open>ploc\<close>, and \<open>net\<close> is what the page's \<open>fetch\<close>
  settles with. The tasks that \<open>preloadAllModels\<close> runs concurrently, and the calls
  that \<open>ensureAllCached\<close> does not await, write distinct keys; they are taken in list
  order. \<open>hasCaches\<close> is \<open>'caches' in window\<close>.
\<close>

fun preloader_loop :: "network \<Rightarrow> string \<Rightarrow> url list \<Rightarrow> worker_state \<Rightarrow> worker_state" where
  "preloader_loop net cacheName [] st = st"
| "preloader_loop net cacheName (model # rest) st =
     preloader_loop net cacheName rest
       (case cache_match st cacheName model of
          Some cached \<Rightarrow> st
        | None \<Rightarrow> preloadWithFetch net model cacheName st)"

definition preloadAllModels :: "bool \<Rightarrow> location \<Rightarrow> network \<Rightarrow> worker_state \<Rightarrow> worker_state" where
  "preloadAllModels hasCaches ploc net st =
     (if \<not> hasCaches then st
      else preloader_loop net ''penta-3d-models-v1'' (map (resolve_url ploc) ModelPreloader_models)
             (caches_open ''penta-3d-models-v1'' st))"

definition ensureAllCached :: "bool \<Rightarrow> location \<Rightarrow> network \<Rightarrow> worker_state \<Rightarrow> worker_state" where
  "ensureAllCached hasCaches ploc net st =
     (if \<not> hasCaches then st
      else preloader_loop net ''penta-3d-models-v1'' (map (resolve_url ploc) ModelPreloader_models)
             (caches_open ''penta-3d-models-v1'' st))"

section \<open>Runs of the worker\<close>

text \<open>
  The events that change the cache state. Each handler runs to its end before the
  next event; the writes it did not await stay pending and settle at a later
  \<open>Settle\<close> event, and a background fetch is answered at a later \<open>Answer\<close> event.
  Every event brings the network's behaviour at that time.
\<close>

datatype event =
    Install network
  | Activate
  | Fetch network url
  | Message network message_event
  | Settle
  | Answer network
  | PagePreloadAll bool location network
  | PageEnsureAll bool location network

fun step :: "location \<Rightarrow> event \<Rightarrow> worker_state \<Rightarrow> worker_state" where
  "step loc (Install net) st = snd (install loc net st)"
| "step loc Activate st = activate st"
| "step loc (Fetch net request) st = snd (on_fetch loc net request st)"
| "step loc (Message net ev) st = snd (on_message loc net ev st)"
| "step loc Settle st = settle_one st"
| "step loc (Answer net) st = answer_one net st"
| "step loc (PagePreloadAll hasCaches ploc net) st = preloadAllModels hasCaches ploc net st"
| "step loc (PageEnsureAll hasCaches ploc net) st = ensureAllCached hasCaches ploc net st"

definition initial_state :: worker_state where
  "initial_state =
     \<lparr>storage = [], netlog = [], pending = [], inflight = [],
      skipWaitingCalled = False, clientsClaimed = False\<rparr>"

definition run :: "location \<Rightarrow> event list \<Rightarrow> worker_state \<Rightarrow> worker_state" where
  "run loc evs st = fold (step loc) evs st"

section \<open>Repeated requests and example inputs\<close>

text \<open>
  The same request handled by \<open>cacheFirst\<close> once for each network behaviour of the
  list, one call after the other: the outcomes and the final state.
\<close>

fun repeat_requests :: "network list \<Rightarrow> url \<Rightarrow> string \<Rightarrow> worker_state \<Rightarrow> outcome list \<times> worker_state" where
  "repeat_requests [] request cacheName st = ([], st)"
| "repeat_requests (net # nets) request cacheName st =
     (let (x, st1) = cacheFirst net request cacheName st;
          (xs, st2) = repeat_requests nets request cacheName st1
      in (x # xs, st2))"

text \<open>A site served from the root of its origin, and four behaviours of the network.\<close>

definition site :: location where
  "site = \<lparr>loc_origin = ''https://pentaorganizasyon.com'', loc_dir = ''/''\<rparr>"

definition site_url :: "string \<Rightarrow> url" where
  "site_url p = \<lparr>origin = loc_origin site, pathname = p, search = []\<rparr>"

definition fresh :: "url \<Rightarrow> response" where
  "fresh u = \<lparr>status = 200, body = pathname u, vary = []\<rparr>"

definition error_page :: response where
  "error_page = \<lparr>status = 500, body = ''Internal Server Error'', vary = []\<rparr>"

definition offline :: network where
  "offline u = Inl (NetworkError ''Failed to fetch'')"

definition online :: network where
  "online u = Inr (fresh u)"

definition server_error :: network where
  "server_error u = Inr error_page"

definition second_version :: response where
  "second_version = \<lparr>status = 200, body = ''v2'', vary = []\<rparr>"

definition redeployed :: network where
  "redeployed u = Inr second_version"

definition uncacheable :: response where
  "uncacheable = \<lparr>status = 200, body = ''v2'', vary = [''*'']\<rparr>"

definition vary_star :: network where
  "vary_star u = Inr uncacheable"

definition partial_content :: response where
  "partial_content = \<lparr>status = 206, body = ''bytes 0-1023'', vary = []\<rparr>"

definition ranged :: network where
  "ranged u = Inr partial_content"

definition staff_glb :: url where
  "staff_glb = site_url ''/assets/3d/staff.glb''"

definition main_css :: url where
  "main_css = site_url ''/assets/css/main.css''"

definition index_html :: url where
  "index_html = site_url ''/index.html''"

text \<open>States after one online request, with its write settled.\<close>

definition warmed_state :: worker_state where
  "warmed_state = settle_all (snd (cacheFirst online staff_glb CACHE_NAMES_models initial_state))"

definition visited_state :: worker_state where
  "visited_state = settle_all (snd (networkFirst online index_html CACHE_NAMES_runtime initial_state))"

definition styled_state :: worker_state where
  "styled_state = settle_all (snd (staleWhileRevalidate online main_css CACHE_NAMES_static initial_state))"

section \<open>Invariants of the cache storage\<close>

text \<open>
  Every entry of every partition and every pending write satisfies \<open>A\<close> (a condition
  on the partition's name, the key and the response), so does every ok answer to a
  background fetch, and the keys of a partition are distinct.
\<close>

definition entries_allowed :: "(string \<Rightarrow> url \<Rightarrow> response \<Rightarrow> bool) \<Rightarrow> worker_state \<Rightarrow> bool" where
  "entries_allowed A st =
     ((\<forall>n p. (n, p) \<in> set (storage st) \<longrightarrow>
          distinct (map fst p) \<and> (\<forall>k r. (k, r) \<in> set p \<longrightarrow> A n k r))
      \<and> (\<forall>n k r. (n, k, r) \<in> set (pending st) \<longrightarrow> A n k r)
      \<and> (\<forall>n k c r. (n, k, c) \<in> set (inflight st) \<longrightarrow> ok r \<longrightarrow> A n k r))"

text \<open>The responses held in storage, partition by partition.\<close>

definition stored_responses :: "worker_state \<Rightarrow> response list" where
  "stored_responses st = concat (map (\<lambda>(n, p). map snd p) (storage st))"

text \<open>The URLs of the model manifest, as the worker resolves them.\<close>

definition manifest_urls :: "location \<Rightarrow> url list" where
  "manifest_urls loc = map (resolve_url loc) MODEL_ASSETS"

definition in_manifest :: "location \<Rightarrow> string \<Rightarrow> url \<Rightarrow> response \<Rightarrow> bool" where
  "in_manifest loc n k r = (n = CACHE_NAMES_models \<longrightarrow> k \<in> set (manifest_urls loc))"

text \<open>
  An event that can write only manifest URLs into the models partition: a same-origin
  model-class request is for a manifest asset, and the page preloader's references
  resolve to manifest URLs.
\<close>

fun writes_manifest_only :: "location \<Rightarrow> event \<Rightarrow> bool" where
  "writes_manifest_only loc (Fetch net req) =
     (origin req = loc_origin loc \<and> is_model_path (pathname req) \<longrightarrow> req \<in> set (manifest_urls loc))"
| "writes_manifest_only loc (PagePreloadAll hasCaches ploc net) =
     list_all (\<lambda>u. u \<in> set (manifest_urls loc)) (map (resolve_url ploc) ModelPreloader_models)"
| "writes_manifest_only loc (PageEnsureAll hasCaches ploc net) =
     list_all (\<lambda>u. u \<in> set (manifest_urls loc)) (map (resolve_url ploc) ModelPreloader_models)"
| "writes_manifest_only loc ev = True"

text \<open>More example inputs: two flaky networks, a model outside the manifest, messages.\<close>

definition models_flaky :: network where
  "models_flaky u =
     (if pathname u = ''/assets/3d/staff.glb'' then Inl (NetworkError ''Failed to fetch'')
      else if pathname u = ''/assets/3d/transfer.glb'' then Inr error_page
      else if pathname u = ''/assets/3d/technical.glb'' then Inr partial_content
      else Inr (fresh u))"

definition css_ranged :: network where
  "css_ranged u =
     (if pathname u = ''/assets/css/main.css'' then Inr partial_content else Inr (fresh u))"

definition logo_missing :: network where
  "logo_missing u =
     (if pathname u = ''/assets/images/logo.png'' then Inr \<lparr>status = 404, body = ''Not Found'', vary = []\<rparr>
      else Inr (fresh u))"

definition home_animation_glb :: url where
  "home_animation_glb = site_url ''/assets/3d/home_animation.glb''"

definition status_query :: message_event where
  "status_query = \<lparr>msg_type = ''CACHE_STATUS'', ports = [0]\<rparr>"

definition preload_command :: message_event where
  "preload_command = \<lparr>msg_type = ''PRELOAD_MODELS'', ports = [0]\<rparr>"

section \<open>Activation: garbage collection of old partitions\<close>

lemma storage_caches_delete:
  "storage (caches_delete n st) = filter (\<lambda>e. fst e \<noteq> n) (storage st)"
  by (simp add: caches_delete_def)

lemma storage_fold_delete:
  "storage (fold caches_delete ns st) = filter (\<lambda>e. fst e \<notin> set ns) (storage st)"
proof (induction ns arbitrary: st)
  case Nil
  show ?case by simp
next
  case (Cons n ns)
  show ?case by (simp add: Cons.IH storage_caches_delete conj_commute)
qed

lemma storage_activate:
  "storage (activate st) = filter (\<lambda>e. fst e \<in> set CACHE_NAMES_values) (storage st)"
proof -
  have "filter (\<lambda>e. fst e \<notin> set (filter (\<lambda>name. name \<notin> set CACHE_NAMES_values) (caches_keys st))) (storage st)
        = filter (\<lambda>e. fst e \<in> set CACHE_NAMES_values) (storage st)"
    by (rule filter_cong) (auto simp: caches_keys_def)
  then show ?thesis
    by (simp add: activate_def Let_def storage_fold_delete)
qed

lemma caches_keys_activate:
  "caches_keys (activate st) = filter (\<lambda>name. name \<in> set CACHE_NAMES_values) (caches_keys st)"
  by (simp add: caches_keys_def storage_activate filter_map comp_def)

text \<open>
  C6. After the activate handler, the names in storage are the names that were there
  and are one of the three current-version names, in their old order: no name other
  than the models, static and runtime names of the current version remains, and the
  partitions kept are kept with their entries.
\<close>

theorem activate_deletes_every_other_partition:
  "caches_keys (activate st) = filter (\<lambda>name. name \<in> set CACHE_NAMES_values) (caches_keys st)
   \<and> \<not> (\<exists>name. name \<in> set (caches_keys (activate st))
          \<and> name \<noteq> CACHE_NAMES_models \<and> name \<noteq> CACHE_NAMES_static
          \<and> name \<noteq> CACHE_NAMES_runtime)
   \<and> storage (activate st) = filter (\<lambda>e. fst e \<in> set CACHE_NAMES_values) (storage st)"
  by (auto simp add: caches_keys_activate storage_activate CACHE_NAMES_values_def)

section \<open>Facts about the cache primitives\<close>

lemmas eval_defs = cacheFirst_def staleWhileRevalidate_def networkFirst_def
  online_def offline_def server_error_def redeployed_def fresh_def error_page_def
  site_url_def site_def initial_state_def Let_def caches_open_def
  caches_keys_def cache_match_def partition_of_def log_fetch_def start_put_def ok_def
  CACHE_NAMES_models_def CACHE_NAMES_static_def CACHE_NAMES_runtime_def CACHE_VERSION_def
  staff_glb_def main_css_def index_html_def warmed_state_def visited_state_def styled_state_def
  settle_all_def cache_put_def storable_def write_entry_def put_entry_def
  fetchPromise_settled_def start_background_fetch_def answer_all_def
  second_version_def partial_content_def ranged_def uncacheable_def vary_star_def

lemma map_of_put_entry:
  "map_of (put_entry k r p) k' = (if k' = k then Some r else map_of p k')"
proof -
  have a: "map_of (filter (\<lambda>e. fst e \<noteq> k) p) k = None"
    by (simp add: map_of_eq_None_iff image_iff)
  have b: "k' \<noteq> k \<Longrightarrow> map_of (filter (\<lambda>e. fst e \<noteq> k) p) k' = map_of p k'"
    by (induction p) auto
  show ?thesis
    by (simp add: put_entry_def map_add_def a b split: option.splits)
qed

lemma map_of_storage_put:
  "map_of (map (\<lambda>(n, p). if n = name then (n, put_entry k r p) else (n, p)) xs) n' =
     (if n' = name then map_option (put_entry k r) (map_of xs n') else map_of xs n')"
  by (induction xs) auto

lemma caches_keys_write_entry [simp]: "caches_keys (write_entry name k r st) = caches_keys st"
  by (auto simp: caches_keys_def write_entry_def split: prod.splits)

lemma in_keys_iff: "name \<in> set (caches_keys st) \<longleftrightarrow> map_of (storage st) name \<noteq> None"
  by (simp add: caches_keys_def map_of_eq_None_iff)

lemma cache_match_write_entry:
  "cache_match (write_entry name k r st) n' k' =
     (if n' = name \<and> name \<in> set (caches_keys st) \<and> k' = k then Some r
      else cache_match st n' k')"
  by (auto simp: cache_match_def partition_of_def write_entry_def map_of_storage_put
      map_of_put_entry in_keys_iff split: option.splits)

lemma caches_keys_caches_open: "set (caches_keys (caches_open name st)) = insert name (set (caches_keys st))"
  by (auto simp: caches_open_def caches_keys_def)

lemma partition_of_caches_open [simp]:
  "partition_of (caches_open name st) n' = partition_of st n'"
proof (cases "name \<in> set (caches_keys st)")
  case True
  then show ?thesis by (simp add: caches_open_def)
next
  case False
  then have "map_of (storage st) name = None"
    by (simp add: in_keys_iff)
  with False show ?thesis
    by (auto simp: partition_of_def caches_open_def map_add_def split: option.splits)
qed

lemma cache_match_caches_open [simp]:
  "cache_match (caches_open name st) n' k = cache_match st n' k"
  by (simp add: cache_match_def)

lemma cache_match_in_keys: "cache_match st name k = Some c \<Longrightarrow> name \<in> set (caches_keys st)"
  by (auto simp: cache_match_def partition_of_def in_keys_iff split: option.splits)

lemma caches_open_existing: "name \<in> set (caches_keys st) \<Longrightarrow> caches_open name st = st"
  by (simp add: caches_open_def)

lemma cache_match_log_fetch [simp]: "cache_match (log_fetch u st) n k = cache_match st n k"
  by (simp add: cache_match_def partition_of_def log_fetch_def)

lemma cache_match_start_put [simp]: "cache_match (start_put a b c st) n k = cache_match st n k"
  by (simp add: cache_match_def partition_of_def start_put_def)

lemma put_settled [simp]:
  "(case cache_put n k r st of Inl e \<Rightarrow> st | Inr st' \<Rightarrow> st') =
     (if storable r then write_entry n k r st else st)"
  by (simp add: cache_put_def storable_def)

lemma cache_put_rejects: "\<not> storable r \<Longrightarrow> \<exists>e. cache_put n k r st = Inl e"
  by (auto simp: cache_put_def storable_def)

lemma caches_keys_apply_puts [simp]: "caches_keys (apply_puts ps st) = caches_keys st"
  by (induction ps st rule: apply_puts.induct) auto

lemma apply_puts_append: "apply_puts (ps @ qs) st = apply_puts qs (apply_puts ps st)"
  by (induction ps st rule: apply_puts.induct) auto

lemma cache_match_apply_puts_last:
  "name \<in> set (caches_keys st) \<Longrightarrow> storable r \<Longrightarrow>
   cache_match (apply_puts (ps @ [(name, k, r)]) st) name k = Some r"
  by (simp add: apply_puts_append cache_match_write_entry)

lemma apply_puts_unstorable_last:
  "\<not> storable r \<Longrightarrow> apply_puts (ps @ [(name, k, r)]) st = apply_puts ps st"
  by (simp add: apply_puts_append)

lemma netlog_write_entry [simp]: "netlog (write_entry n k r st) = netlog st"
  by (simp add: write_entry_def)

lemma netlog_apply_puts [simp]: "netlog (apply_puts ps st) = netlog st"
  by (induction ps st rule: apply_puts.induct) auto

lemma storage_log_fetch [simp]: "storage (log_fetch u st) = storage st"
  by (simp add: log_fetch_def)

lemma pending_log_fetch [simp]: "pending (log_fetch u st) = pending st"
  by (simp add: log_fetch_def)

lemma pending_caches_open [simp]: "pending (caches_open n st) = pending st"
  by (simp add: caches_open_def)

lemma caches_keys_log_fetch [simp]: "caches_keys (log_fetch u st) = caches_keys st"
  by (simp add: caches_keys_def log_fetch_def)

lemma inflight_log_fetch [simp]: "inflight (log_fetch u st) = inflight st"
  by (simp add: log_fetch_def)

lemma pending_start_background_fetch [simp]:
  "pending (start_background_fetch n k c st) = pending st"
  by (simp add: start_background_fetch_def)

lemma storage_start_background_fetch [simp]:
  "storage (start_background_fetch n k c st) = storage st"
  by (simp add: start_background_fetch_def)

lemma cacheFirst_hit:
  assumes "cache_match st name req = Some c"
  shows "cacheFirst net req name st = (Inr (Some c), st)"
  using assms cache_match_in_keys [OF assms]
  by (simp add: cacheFirst_def Let_def caches_open_existing)

lemma cacheFirst_miss:
  assumes "cache_match st name req = None"
  shows "cacheFirst net req name st =
     (case net req of
        Inl e \<Rightarrow> (Inl e, log_fetch req (caches_open name st))
      | Inr r \<Rightarrow> (Inr (Some r),
          if ok r then start_put name req r (log_fetch req (caches_open name st))
          else log_fetch req (caches_open name st)))"
  using assms by (simp add: cacheFirst_def Let_def split: sum.splits)

lemma settled_start_put:
  assumes "storable r"
  shows "cache_match (settle_all (start_put name req r (log_fetch req (caches_open name st)))) name req = Some r"
proof -
  let ?st1 = "log_fetch req (caches_open name st)"
  have k: "name \<in> set (caches_keys (?st1\<lparr>pending := []\<rparr>))"
    by (simp add: caches_keys_def log_fetch_def caches_open_def)
  have p: "settle_all (start_put name req r ?st1)
           = apply_puts (pending ?st1 @ [(name, req, r)]) (?st1\<lparr>pending := []\<rparr>)"
    by (simp add: settle_all_def start_put_def)
  show ?thesis unfolding p using k assms by (rule cache_match_apply_puts_last)
qed

lemma settled_unstorable_put:
  "\<not> storable r \<Longrightarrow> settle_all (start_put name req r st) = settle_all st"
  by (simp add: settle_all_def start_put_def apply_puts_unstorable_last)

lemma netlog_settle_all [simp]: "netlog (settle_all st) = netlog st"
  by (simp add: settle_all_def)

lemma netlog_settled_start_put:
  "netlog (settle_all (start_put name req r (log_fetch req (caches_open name st)))) = netlog st @ [req]"
  by (simp add: settle_all_def start_put_def log_fetch_def caches_open_def)

section \<open>Cache-first\<close>

lemma repeat_hits:
  "cache_match st name req = Some c \<Longrightarrow>
   repeat_requests nets req name st = (replicate (length nets) (Inr (Some c)), st)"
  by (induction nets) (simp_all add: cacheFirst_hit)

text \<open>
  C1. When the request has a cached match in the partition, \<open>cacheFirst\<close> returns the
  stored response and leaves the state as it was, the network log included: no fetch
  is made, and the same holds for any number of repeated requests, whatever the
  network would answer. Hence, when a first request for a resource that was never
  fetched has missed and the resource is in the partition once the pending writes
  have settled (it has been cached successfully), the log holds exactly one network
  call for it after any number of further requests. The caching does succeed when the
  answer is an ok response that the cache takes.
\<close>

theorem cacheFirst_hit_never_fetches:
  "(cache_match st name req = Some c \<longrightarrow>
      cacheFirst net req name st = (Inr (Some c), st)
      \<and> repeat_requests nets req name st = (replicate (length nets) (Inr (Some c)), st))
   \<and> (cache_match st name req = None \<and> req \<notin> set (netlog st)
        \<and> cache_match (settle_all (snd (cacheFirst net req name st))) name req = Some c \<longrightarrow>
      repeat_requests nets req name (settle_all (snd (cacheFirst net req name st)))
        = (replicate (length nets) (Inr (Some c)), settle_all (snd (cacheFirst net req name st)))
      \<and> count_list (netlog (snd (repeat_requests nets req name
            (settle_all (snd (cacheFirst net req name st)))))) req = 1)
   \<and> (cache_match st name req = None \<and> net req = Inr r \<and> ok r \<and> storable r \<longrightarrow>
      cache_match (settle_all (snd (cacheFirst net req name st))) name req = Some r)"
proof (intro conjI impI)
  assume h: "cache_match st name req = Some c"
  show "cacheFirst net req name st = (Inr (Some c), st)" using h by (rule cacheFirst_hit)
  show "repeat_requests nets req name st = (replicate (length nets) (Inr (Some c)), st)"
    using h by (rule repeat_hits)
next
  let ?s = "settle_all (snd (cacheFirst net req name st))"
  assume h: "cache_match st name req = None \<and> req \<notin> set (netlog st)
        \<and> cache_match ?s name req = Some c"
  then have m: "cache_match ?s name req = Some c" by simp
  from h have l: "netlog (snd (cacheFirst net req name st)) = netlog st @ [req]"
    by (simp add: cacheFirst_miss log_fetch_def start_put_def caches_open_def split: sum.splits)
  show "repeat_requests nets req name ?s = (replicate (length nets) (Inr (Some c)), ?s)"
    using m by (rule repeat_hits)
  from h have "count_list (netlog st) req = 0" by (simp add: count_list_0_iff)
  then show "count_list (netlog (snd (repeat_requests nets req name ?s))) req = 1"
    by (simp add: repeat_hits [OF m] l)
next
  assume "cache_match st name req = None \<and> net req = Inr r \<and> ok r \<and> storable r"
  then show "cache_match (settle_all (snd (cacheFirst net req name st))) name req = Some r"
    by (simp add: cacheFirst_miss settled_start_put)
qed

theorem cacheFirst_hit_never_fetches_witness:
  "cache_match warmed_state CACHE_NAMES_models staff_glb = Some (fresh staff_glb)
   \<and> cacheFirst offline staff_glb CACHE_NAMES_models warmed_state
       = (Inr (Some (fresh staff_glb)), warmed_state)
   \<and> netlog (snd (repeat_requests [offline, online, server_error] staff_glb
        CACHE_NAMES_models warmed_state)) = [staff_glb]
   \<and> (cache_match initial_state CACHE_NAMES_models staff_glb = None
        \<and> staff_glb \<notin> set (netlog initial_state)
        \<and> online staff_glb = Inr (fresh staff_glb) \<and> ok (fresh staff_glb)
        \<and> storable (fresh staff_glb))
   \<and> cache_match (settle_all (snd (cacheFirst online staff_glb CACHE_NAMES_models initial_state)))
        CACHE_NAMES_models staff_glb = Some (fresh staff_glb)
   \<and> count_list (netlog (snd (repeat_requests [offline, online, server_error] staff_glb
        CACHE_NAMES_models
        (settle_all (snd (cacheFirst online staff_glb CACHE_NAMES_models initial_state))))))
        staff_glb = 1"
proof -
  have w: "cache_match warmed_state CACHE_NAMES_models staff_glb = Some (fresh staff_glb)"
    by (simp add: eval_defs)
  have n: "netlog warmed_state = [staff_glb]"
    by (simp add: eval_defs)
  have i: "cache_match initial_state CACHE_NAMES_models staff_glb = None
     \<and> staff_glb \<notin> set (netlog initial_state)
     \<and> online staff_glb = Inr (fresh staff_glb) \<and> ok (fresh staff_glb)
     \<and> storable (fresh staff_glb)"
    by (simp add: eval_defs)
  have a: "cacheFirst offline staff_glb CACHE_NAMES_models warmed_state
       = (Inr (Some (fresh staff_glb)), warmed_state)
     \<and> repeat_requests [offline, online, server_error] staff_glb CACHE_NAMES_models warmed_state
       = (replicate (length [offline, online, server_error])
            (Inr (Some (fresh staff_glb))), warmed_state)"
    using w cacheFirst_hit_never_fetches [where st = warmed_state and name = CACHE_NAMES_models
        and req = staff_glb and c = "fresh staff_glb"
        and net = offline and nets = "[offline, online, server_error]"]
    by blast
  note t = cacheFirst_hit_never_fetches [where st = initial_state and name = CACHE_NAMES_models
        and req = staff_glb and net = online and r = "fresh staff_glb" and c = "fresh staff_glb"
        and nets = "[offline, online, server_error]"]
  have c: "cache_match (settle_all (snd (cacheFirst online staff_glb CACHE_NAMES_models
        initial_state))) CACHE_NAMES_models staff_glb = Some (fresh staff_glb)"
    using i t by blast
  have b: "count_list (netlog (snd (repeat_requests [offline, online, server_error] staff_glb
        CACHE_NAMES_models
        (settle_all (snd (cacheFirst online staff_glb CACHE_NAMES_models initial_state))))))
        staff_glb = 1"
    using i c t by blast
  from a have "netlog (snd (repeat_requests [offline, online, server_error] staff_glb
      CACHE_NAMES_models warmed_state)) = [staff_glb]"
    by (simp add: n del: repeat_requests.simps)
  with w a i c b show ?thesis by blast
qed

text \<open>
  C4, as stated: on a miss answered by an ok response the write would be complete
  when \<open>cacheFirst\<close> returns. It is not: the put is started and not awaited, and at
  the return the partition still has no match for the request.
\<close>

theorem cacheFirst_write_not_complete_at_return:
  "cache_match initial_state CACHE_NAMES_models staff_glb = None
   \<and> online staff_glb = Inr (fresh staff_glb)
   \<and> ok (fresh staff_glb)
   \<and> fst (cacheFirst online staff_glb CACHE_NAMES_models initial_state)
        = Inr (Some (fresh staff_glb))
   \<and> cache_match (snd (cacheFirst online staff_glb CACHE_NAMES_models initial_state))
        CACHE_NAMES_models staff_glb = None"
  by (simp add: eval_defs)

text \<open>
  C4, amended. On a miss: an ok response is returned after the put of its copy has
  been started, not awaited; once the pending writes have settled the copy is in the
  partition when the cache takes the response, and when the cache refuses it (status
  206, \<open>Vary: *\<close>) the put has been rejected and has written nothing. A response that
  is not ok is returned and no put is started; a rejected fetch rejects \<open>cacheFirst\<close>
  with the same error and no put is started.
\<close>

theorem cacheFirst_miss_starts_store:
  "cache_match st name req = None \<Longrightarrow>
     (net req = Inr r \<and> ok r \<longrightarrow>
        cacheFirst net req name st
          = (Inr (Some r), start_put name req r (log_fetch req (caches_open name st)))
        \<and> (storable r \<longrightarrow>
             cache_match (settle_all (snd (cacheFirst net req name st))) name req = Some r)
        \<and> (\<not> storable r \<longrightarrow>
             (\<exists>e. cache_put name req r (log_fetch req (caches_open name st)) = Inl e)
             \<and> settle_all (snd (cacheFirst net req name st))
                 = settle_all (log_fetch req (caches_open name st))))
     \<and> (net req = Inr r \<and> \<not> ok r \<longrightarrow>
        cacheFirst net req name st = (Inr (Some r), log_fetch req (caches_open name st)))
     \<and> (net req = Inl e \<longrightarrow>
        cacheFirst net req name st = (Inl e, log_fetch req (caches_open name st)))"
  by (simp add: cacheFirst_miss settled_start_put settled_unstorable_put cache_put_rejects)

theorem cacheFirst_miss_starts_store_witness:
  "cache_match initial_state CACHE_NAMES_models staff_glb = None
   \<and> (online staff_glb = Inr (fresh staff_glb) \<and> ok (fresh staff_glb)
        \<and> storable (fresh staff_glb))
   \<and> pending (snd (cacheFirst online staff_glb CACHE_NAMES_models initial_state))
        = [(CACHE_NAMES_models, staff_glb, fresh staff_glb)]
   \<and> cache_match (settle_all (snd (cacheFirst online staff_glb CACHE_NAMES_models initial_state)))
        CACHE_NAMES_models staff_glb = Some (fresh staff_glb)
   \<and> (ranged staff_glb = Inr partial_content \<and> ok partial_content
        \<and> \<not> storable partial_content)
   \<and> fst (cacheFirst ranged staff_glb CACHE_NAMES_models initial_state)
        = Inr (Some partial_content)
   \<and> cache_match (settle_all (snd (cacheFirst ranged staff_glb CACHE_NAMES_models initial_state)))
        CACHE_NAMES_models staff_glb = None
   \<and> (server_error staff_glb = Inr error_page \<and> \<not> ok error_page)
   \<and> cacheFirst server_error staff_glb CACHE_NAMES_models initial_state
        = (Inr (Some error_page), log_fetch staff_glb (caches_open CACHE_NAMES_models initial_state))
   \<and> offline staff_glb = Inl (NetworkError ''Failed to fetch'')
   \<and> fst (cacheFirst offline staff_glb CACHE_NAMES_models initial_state)
        = Inl (NetworkError ''Failed to fetch'')"
proof -
  have m: "cache_match initial_state CACHE_NAMES_models staff_glb = None"
    by (simp add: eval_defs)
  have h: "online staff_glb = Inr (fresh staff_glb) \<and> ok (fresh staff_glb) \<and> storable (fresh staff_glb)"
    "server_error staff_glb = Inr error_page \<and> \<not> ok error_page"
    "offline staff_glb = Inl (NetworkError ''Failed to fetch'')"
    "ranged staff_glb = Inr partial_content \<and> ok partial_content \<and> \<not> storable partial_content"
    by (simp_all add: online_def server_error_def offline_def ranged_def ok_def storable_def
        fresh_def error_page_def partial_content_def)
  note t = cacheFirst_miss_starts_store [OF m]
  have a: "cacheFirst online staff_glb CACHE_NAMES_models initial_state
          = (Inr (Some (fresh staff_glb)), start_put CACHE_NAMES_models staff_glb (fresh staff_glb)
               (log_fetch staff_glb (caches_open CACHE_NAMES_models initial_state)))
        \<and> cache_match (settle_all (snd (cacheFirst online staff_glb CACHE_NAMES_models initial_state)))
            CACHE_NAMES_models staff_glb = Some (fresh staff_glb)"
    using h(1) t [where net = online and r = "fresh staff_glb"] by blast
  then have p: "pending (snd (cacheFirst online staff_glb CACHE_NAMES_models initial_state))
        = [(CACHE_NAMES_models, staff_glb, fresh staff_glb)]"
    by (simp add: start_put_def log_fetch_def caches_open_def initial_state_def)
  have q: "cacheFirst ranged staff_glb CACHE_NAMES_models initial_state
          = (Inr (Some partial_content), start_put CACHE_NAMES_models staff_glb partial_content
               (log_fetch staff_glb (caches_open CACHE_NAMES_models initial_state)))
        \<and> settle_all (snd (cacheFirst ranged staff_glb CACHE_NAMES_models initial_state))
            = settle_all (log_fetch staff_glb (caches_open CACHE_NAMES_models initial_state))"
    using h(4) t [where net = ranged and r = partial_content] by blast
  have q1: "fst (cacheFirst ranged staff_glb CACHE_NAMES_models initial_state)
        = Inr (Some partial_content)"
    using q by simp
  have "cache_match (settle_all (log_fetch staff_glb (caches_open CACHE_NAMES_models initial_state)))
        CACHE_NAMES_models staff_glb = None"
    by (simp add: eval_defs)
  with q [THEN conjunct2] have q2: "cache_match (settle_all (snd (cacheFirst ranged staff_glb
        CACHE_NAMES_models initial_state))) CACHE_NAMES_models staff_glb = None"
    by simp
  have b: "cacheFirst server_error staff_glb CACHE_NAMES_models initial_state
        = (Inr (Some error_page), log_fetch staff_glb (caches_open CACHE_NAMES_models initial_state))"
    using h(2) t [where net = server_error and r = error_page] by blast
  have c: "cacheFirst offline staff_glb CACHE_NAMES_models initial_state
        = (Inl (NetworkError ''Failed to fetch''),
           log_fetch staff_glb (caches_open CACHE_NAMES_models initial_state))"
    using h(3) t [where net = offline and e = "NetworkError ''Failed to fetch''"] by blast
  from c have c': "fst (cacheFirst offline staff_glb CACHE_NAMES_models initial_state)
        = Inl (NetworkError ''Failed to fetch'')"
    by simp
  from m h a [THEN conjunct2] p q1 q2 b c' show ?thesis by blast
qed

section \<open>Network-first\<close>

lemma networkFirst_network_failure:
  assumes "net req = Inl e"
  shows "networkFirst net req name st =
     (case cache_match st name req of Some c \<Rightarrow> Inr (Some c) | None \<Rightarrow> Inl e,
      log_fetch req (caches_open name st))"
  using assms by (simp add: networkFirst_def Let_def split: option.splits)

lemma networkFirst_response:
  assumes "net req = Inr r"
  shows "networkFirst net req name st =
     (Inr (Some r),
      if ok r then start_put name req r (log_fetch req (caches_open name st))
      else log_fetch req (caches_open name st))"
  using assms by (simp add: networkFirst_def Let_def)

text \<open>
  C3, as stated: a server error would be recovered from the runtime partition when a
  cached match exists. It is not: for \<open>fetch\<close> a status 500 is a response, not a
  rejection, and \<open>networkFirst\<close> returns that response although the page is cached.
\<close>

theorem networkFirst_server_error_not_recovered:
  "cache_match visited_state CACHE_NAMES_runtime index_html = Some (fresh index_html)
   \<and> server_error index_html = Inr error_page
   \<and> \<not> ok error_page
   \<and> fst (networkFirst server_error index_html CACHE_NAMES_runtime visited_state)
       = Inr (Some error_page)"
  by (simp add: eval_defs)

text \<open>
  C3, amended. A rejected fetch (a network-level failure) is recovered by the cached
  match of the partition when there is one, and otherwise \<open>networkFirst\<close> rejects
  with the same error; a response, a server error included, is returned as it is, and
  one that is not ok starts no write.
\<close>

theorem networkFirst_falls_back_on_rejection:
  "(net req = Inl e \<and> cache_match st name req = Some c \<longrightarrow>
      fst (networkFirst net req name st) = Inr (Some c))
   \<and> (net req = Inl e \<and> cache_match st name req = None \<longrightarrow>
      fst (networkFirst net req name st) = Inl e)
   \<and> (net req = Inr r \<longrightarrow> fst (networkFirst net req name st) = Inr (Some r))
   \<and> (net req = Inr r \<and> \<not> ok r \<longrightarrow>
      snd (networkFirst net req name st) = log_fetch req (caches_open name st))"
  by (simp add: networkFirst_network_failure networkFirst_response)

theorem networkFirst_falls_back_on_rejection_witness:
  "(offline index_html = Inl (NetworkError ''Failed to fetch'')
      \<and> cache_match visited_state CACHE_NAMES_runtime index_html = Some (fresh index_html))
   \<and> fst (networkFirst offline index_html CACHE_NAMES_runtime visited_state)
       = Inr (Some (fresh index_html))
   \<and> cache_match initial_state CACHE_NAMES_runtime index_html = None
   \<and> fst (networkFirst offline index_html CACHE_NAMES_runtime initial_state)
       = Inl (NetworkError ''Failed to fetch'')
   \<and> (server_error index_html = Inr error_page \<and> \<not> ok error_page)
   \<and> fst (networkFirst server_error index_html CACHE_NAMES_runtime visited_state)
       = Inr (Some error_page)
   \<and> pending (snd (networkFirst server_error index_html CACHE_NAMES_runtime visited_state)) = []"
proof -
  have h: "offline index_html = Inl (NetworkError ''Failed to fetch'')"
    "cache_match visited_state CACHE_NAMES_runtime index_html = Some (fresh index_html)"
    "cache_match initial_state CACHE_NAMES_runtime index_html = None"
    "server_error index_html = Inr error_page \<and> \<not> ok error_page"
    by (simp_all add: eval_defs)
  have p: "pending (log_fetch index_html (caches_open CACHE_NAMES_runtime visited_state)) = []"
    by (simp add: eval_defs)
  have a: "fst (networkFirst offline index_html CACHE_NAMES_runtime visited_state)
       = Inr (Some (fresh index_html))"
    using h(1,2) networkFirst_falls_back_on_rejection [where net = offline and req = index_html
        and e = "NetworkError ''Failed to fetch''" and st = visited_state
        and name = CACHE_NAMES_runtime and c = "fresh index_html"]
    by blast
  have b: "fst (networkFirst offline index_html CACHE_NAMES_runtime initial_state)
       = Inl (NetworkError ''Failed to fetch'')"
    using h(1,3) networkFirst_falls_back_on_rejection [where net = offline and req = index_html
        and e = "NetworkError ''Failed to fetch''" and st = initial_state
        and name = CACHE_NAMES_runtime]
    by blast
  have c: "fst (networkFirst server_error index_html CACHE_NAMES_runtime visited_state)
       = Inr (Some error_page)
     \<and> snd (networkFirst server_error index_html CACHE_NAMES_runtime visited_state)
       = log_fetch index_html (caches_open CACHE_NAMES_runtime visited_state)"
    using h(4) networkFirst_falls_back_on_rejection [where net = server_error
        and req = index_html and r = error_page and st = visited_state
        and name = CACHE_NAMES_runtime]
    by blast
  from c p have d: "pending (snd (networkFirst server_error index_html CACHE_NAMES_runtime
      visited_state)) = []"
    by simp
  from h a b c [THEN conjunct1] d show ?thesis by blast
qed

section \<open>Stale-while-revalidate\<close>

lemma swr_hit:
  "cache_match st name req = Some c \<Longrightarrow>
   staleWhileRevalidate net req name st
     = (Inr (Some c), start_background_fetch name req (Some c) (log_fetch req st))"
  by (simp add: staleWhileRevalidate_def Let_def caches_open_existing cache_match_in_keys)

lemma swr_miss:
  "cache_match st name req = None \<Longrightarrow>
   staleWhileRevalidate net req name st =
     (case net req of
        Inl e \<Rightarrow> (Inr None, log_fetch req (caches_open name st))
      | Inr r \<Rightarrow> (Inr (Some r),
          if ok r then start_put name req r (log_fetch req (caches_open name st))
          else log_fetch req (caches_open name st)))"
  by (simp add: staleWhileRevalidate_def fetchPromise_settled_def Let_def split: sum.splits)

lemma swr_miss_failure:
  "cache_match st name req = None \<Longrightarrow> net req = Inl e \<Longrightarrow>
   staleWhileRevalidate net req name st = (Inr None, log_fetch req (caches_open name st))"
  by (simp add: swr_miss)

lemma caches_keys_start_put [simp]: "caches_keys (start_put n k r st) = caches_keys st"
  by (simp add: caches_keys_def start_put_def)

lemma caches_keys_fetchPromise_settled [simp]:
  "caches_keys (snd (fetchPromise_settled a n k c st)) = caches_keys st"
  by (simp add: fetchPromise_settled_def split: sum.splits)

lemma caches_keys_answer_each [simp]: "caches_keys (answer_each net fs st) = caches_keys st"
  by (induction fs arbitrary: st) auto

lemma storage_answer_each [simp]: "storage (answer_each net fs st) = storage st"
  by (induction fs arbitrary: st)
     (auto simp: fetchPromise_settled_def start_put_def split: sum.splits)

lemma answer_each_append:
  "answer_each net (fs @ gs) st = answer_each net gs (answer_each net fs st)"
  by (induction fs arbitrary: st) auto

lemma settle_all_storable_last:
  assumes "pending st = ps @ [(name, k, r)]" "name \<in> set (caches_keys st)" "storable r"
  shows "cache_match (settle_all st) name k = Some r"
proof -
  have "name \<in> set (caches_keys (st\<lparr>pending := []\<rparr>))"
    using assms(2) by (simp add: caches_keys_def)
  then show ?thesis
    unfolding settle_all_def assms(1) using assms(3) by (rule cache_match_apply_puts_last)
qed

lemma answered_background_fetch:
  assumes "net req = Inr r" "ok r"
  shows "pending (answer_all net (start_background_fetch name req c st))
     = pending (answer_all net st) @ [(name, req, r)]"
  using assms
  by (simp add: answer_all_def start_background_fetch_def answer_each_append
      fetchPromise_settled_def start_put_def)

lemma failed_background_fetch:
  assumes "net req = Inl e"
  shows "answer_all net (start_background_fetch name req c st) = answer_all net st"
  using assms
  by (simp add: answer_all_def start_background_fetch_def answer_each_append
      fetchPromise_settled_def)

lemma caches_keys_answer_all [simp]: "caches_keys (answer_all net st) = caches_keys st"
  by (simp add: answer_all_def caches_keys_def)

lemma caches_keys_start_background_fetch [simp]:
  "caches_keys (start_background_fetch n k c st) = caches_keys st"
  by (simp add: caches_keys_def start_background_fetch_def)

text \<open>
  C2. With no cached match and a rejected fetch, the \<open>catch\<close> handler resolves
  \<open>fetchPromise\<close> with the \<open>cachedResponse\<close> of the first lookup, which is
  \<open>undefined\<close>; the partition is not looked up again. \<open>staleWhileRevalidate\<close> then
  resolves with \<open>undefined\<close>: the failure is not surfaced as an error.
\<close>

theorem staleWhileRevalidate_miss_failure_resolves_undefined:
  "cache_match initial_state CACHE_NAMES_static main_css = None
   \<and> offline main_css = Inl (NetworkError ''Failed to fetch'')
   \<and> fst (staleWhileRevalidate offline main_css CACHE_NAMES_static initial_state) = Inr None"
  by (simp add: eval_defs)

text \<open>
  C8, as stated: whenever the network fetch succeeds, the partition would be updated
  with the fresh response. It is not when the cache refuses the response: the fetch
  brings a response with status 200 and the header \<open>Vary: *\<close>, the \<open>then\<close> handler
  starts the put, the put is rejected, nobody handles the rejection, and the partition
  still holds the old response for a request served from the cache, and nothing for a
  request that had no cached match.
\<close>

theorem staleWhileRevalidate_refused_response_not_stored:
  "cache_match styled_state CACHE_NAMES_static main_css = Some (fresh main_css)
   \<and> vary_star main_css = Inr uncacheable
   \<and> ok uncacheable
   \<and> fst (staleWhileRevalidate vary_star main_css CACHE_NAMES_static styled_state)
       = Inr (Some (fresh main_css))
   \<and> cache_match (settle_all (answer_all vary_star (snd (staleWhileRevalidate vary_star main_css
         CACHE_NAMES_static styled_state)))) CACHE_NAMES_static main_css
       = Some (fresh main_css)
   \<and> fresh main_css \<noteq> uncacheable
   \<and> cache_match initial_state CACHE_NAMES_static main_css = None
   \<and> fst (staleWhileRevalidate vary_star main_css CACHE_NAMES_static initial_state)
       = Inr (Some uncacheable)
   \<and> cache_match (settle_all (snd (staleWhileRevalidate vary_star main_css
         CACHE_NAMES_static initial_state))) CACHE_NAMES_static main_css
       = None"
  by (simp add: eval_defs)

text \<open>
  C8, amended. With a cached match, \<open>staleWhileRevalidate\<close> returns the cached response
  at once: the result and the state at the return are fixed before the network has
  answered (the fetch is logged and in flight, the storage is untouched), so they are
  the same however long the answer takes and whatever it is; when the fetch fails
  later, the state is as if it had not been sent. When the fetch brings an ok response
  that the cache takes, the partition holds the fresh response once the pending
  writes have settled: after the late answer for a request served from the cache, and
  after the return for a request that had no cached match.
\<close>

theorem staleWhileRevalidate_serves_cached_and_refreshes:
  "(cache_match st name req = Some c \<longrightarrow>
      staleWhileRevalidate net req name st
        = (Inr (Some c), start_background_fetch name req (Some c) (log_fetch req st))
      \<and> storage (snd (staleWhileRevalidate net req name st)) = storage st
      \<and> inflight (snd (staleWhileRevalidate net req name st)) = inflight st @ [(name, req, Some c)]
      \<and> netlog (snd (staleWhileRevalidate net req name st)) = netlog st @ [req]
      \<and> (later req = Inl e \<longrightarrow>
           answer_all later (snd (staleWhileRevalidate net req name st))
             = answer_all later (log_fetch req st))
      \<and> (later req = Inr r \<and> ok r \<and> storable r \<longrightarrow>
           cache_match (settle_all (answer_all later (snd (staleWhileRevalidate net req name st))))
             name req = Some r))
   \<and> (cache_match st name req = None \<and> net req = Inr r \<and> ok r \<and> storable r \<longrightarrow>
      fst (staleWhileRevalidate net req name st) = Inr (Some r)
      \<and> cache_match (settle_all (snd (staleWhileRevalidate net req name st))) name req = Some r)"
proof (intro conjI impI)
  assume h: "cache_match st name req = Some c"
  note s = swr_hit [OF h]
  show "staleWhileRevalidate net req name st
        = (Inr (Some c), start_background_fetch name req (Some c) (log_fetch req st))"
    by (rule s)
  show "storage (snd (staleWhileRevalidate net req name st)) = storage st"
    by (simp add: s start_background_fetch_def)
  show "inflight (snd (staleWhileRevalidate net req name st)) = inflight st @ [(name, req, Some c)]"
    by (simp add: s start_background_fetch_def log_fetch_def)
  show "netlog (snd (staleWhileRevalidate net req name st)) = netlog st @ [req]"
    by (simp add: s start_background_fetch_def log_fetch_def)
  {
    assume "later req = Inl e"
    then show "answer_all later (snd (staleWhileRevalidate net req name st))
             = answer_all later (log_fetch req st)"
      by (simp add: s failed_background_fetch)
  }
  {
    assume a: "later req = Inr r \<and> ok r \<and> storable r"
    let ?a = "answer_all later (start_background_fetch name req (Some c) (log_fetch req st))"
    have p: "pending ?a = pending (answer_all later (log_fetch req st)) @ [(name, req, r)]"
      using a by (simp add: answered_background_fetch)
    have k: "name \<in> set (caches_keys ?a)"
      using cache_match_in_keys [OF h] by simp
    have "cache_match (settle_all ?a) name req = Some r"
      using p k a by (blast intro: settle_all_storable_last)
    then show "cache_match (settle_all (answer_all later (snd (staleWhileRevalidate net req name st))))
             name req = Some r"
      by (simp add: s)
  }
next
  assume a: "cache_match st name req = None \<and> net req = Inr r \<and> ok r \<and> storable r"
  then show "fst (staleWhileRevalidate net req name st) = Inr (Some r)"
    by (simp add: swr_miss)
  from a show "cache_match (settle_all (snd (staleWhileRevalidate net req name st))) name req = Some r"
    by (simp add: swr_miss settled_start_put)
qed

theorem staleWhileRevalidate_serves_cached_and_refreshes_witness:
  "cache_match styled_state CACHE_NAMES_static main_css = Some (fresh main_css)
   \<and> fst (staleWhileRevalidate offline main_css CACHE_NAMES_static styled_state)
       = Inr (Some (fresh main_css))
   \<and> fst (staleWhileRevalidate redeployed main_css CACHE_NAMES_static styled_state)
       = Inr (Some (fresh main_css))
   \<and> storage (snd (staleWhileRevalidate redeployed main_css CACHE_NAMES_static styled_state))
       = storage styled_state
   \<and> offline main_css = Inl (NetworkError ''Failed to fetch'')
   \<and> answer_all offline (snd (staleWhileRevalidate redeployed main_css CACHE_NAMES_static
         styled_state)) = answer_all offline (log_fetch main_css styled_state)
   \<and> (redeployed main_css = Inr second_version \<and> ok second_version \<and> storable second_version)
   \<and> cache_match (settle_all (answer_all redeployed (snd (staleWhileRevalidate offline main_css
         CACHE_NAMES_static styled_state)))) CACHE_NAMES_static main_css
       = Some second_version
   \<and> cache_match initial_state CACHE_NAMES_static main_css = None
   \<and> cache_match (settle_all (snd (staleWhileRevalidate redeployed main_css
         CACHE_NAMES_static initial_state))) CACHE_NAMES_static main_css
       = Some second_version"
proof -
  have h: "cache_match styled_state CACHE_NAMES_static main_css = Some (fresh main_css)"
    "redeployed main_css = Inr second_version \<and> ok second_version \<and> storable second_version"
    "offline main_css = Inl (NetworkError ''Failed to fetch'')"
    "cache_match initial_state CACHE_NAMES_static main_css = None"
    by (simp_all add: eval_defs)
  note t1 = staleWhileRevalidate_serves_cached_and_refreshes [where st = styled_state
        and name = CACHE_NAMES_static and req = main_css and c = "fresh main_css"
        and net = offline and later = redeployed and r = second_version,
        THEN conjunct1, THEN mp, OF h(1)]
  have a1: "fst (staleWhileRevalidate offline main_css CACHE_NAMES_static styled_state)
       = Inr (Some (fresh main_css))"
    using t1 [THEN conjunct1] by simp
  have a2: "cache_match (settle_all (answer_all redeployed (snd (staleWhileRevalidate offline main_css
         CACHE_NAMES_static styled_state)))) CACHE_NAMES_static main_css
       = Some second_version"
    by (rule t1 [THEN conjunct2, THEN conjunct2, THEN conjunct2, THEN conjunct2, THEN conjunct2,
        THEN mp, OF h(2)])
  note a = a1 a2
  note t2 = staleWhileRevalidate_serves_cached_and_refreshes [where st = styled_state
        and name = CACHE_NAMES_static and req = main_css and c = "fresh main_css"
        and net = redeployed and later = offline and e = "NetworkError ''Failed to fetch''",
        THEN conjunct1, THEN mp, OF h(1)]
  have b1: "fst (staleWhileRevalidate redeployed main_css CACHE_NAMES_static styled_state)
       = Inr (Some (fresh main_css))"
    using t2 [THEN conjunct1] by simp
  have b2: "storage (snd (staleWhileRevalidate redeployed main_css CACHE_NAMES_static styled_state))
       = storage styled_state"
    by (rule t2 [THEN conjunct2, THEN conjunct1])
  have b3: "answer_all offline (snd (staleWhileRevalidate redeployed main_css CACHE_NAMES_static
         styled_state)) = answer_all offline (log_fetch main_css styled_state)"
    by (rule t2 [THEN conjunct2, THEN conjunct2, THEN conjunct2, THEN conjunct2, THEN conjunct1,
        THEN mp, OF h(3)])
  note b = b1 b2 b3
  have c: "cache_match (settle_all (snd (staleWhileRevalidate redeployed main_css
         CACHE_NAMES_static initial_state))) CACHE_NAMES_static main_css
       = Some second_version"
    using h(2,4) staleWhileRevalidate_serves_cached_and_refreshes [where st = initial_state
        and name = CACHE_NAMES_static and req = main_css
        and net = redeployed and r = second_version]
    by blast
  from h a b c show ?thesis by blast
qed

section \<open>The strategy selector\<close>

lemma endsWith_two:
  "endsWith p s \<Longrightarrow> endsWith p t \<Longrightarrow> suffix s t \<or> suffix t s"
  unfolding endsWith_def using suffix_same_cases by blast

lemma model_not_static: "\<not> (is_model_path p \<and> is_static_path p)"
proof
  assume a: "is_model_path p \<and> is_static_path p"
  then obtain m where m: "m \<in> {''.glb'', ''.gltf''}" "endsWith p m"
    by (auto simp: is_model_path_def)
  from a obtain ext where e: "ext \<in> set static_extensions" "endsWith p (CHR ''.'' # ext)"
    by (auto simp: is_static_path_def list_ex_iff)
  from m(2) e(2) have "suffix m (CHR ''.'' # ext) \<or> suffix (CHR ''.'' # ext) m"
    by (rule endsWith_two)
  with m(1) e(1) show False
    by (auto simp: static_extensions_def suffix_to_prefix)
qed

lemma model_not_document: "\<not> (is_model_path p \<and> is_document_path p)"
proof
  assume a: "is_model_path p \<and> is_document_path p"
  then obtain m where m: "m \<in> {''.glb'', ''.gltf''}" "endsWith p m"
    by (auto simp: is_model_path_def)
  from a consider "endsWith p ''.html''" | "p = ''/''"
    by (auto simp: is_document_path_def)
  then show False
  proof cases
    case 1
    with m(2) have "suffix m ''.html'' \<or> suffix ''.html'' m"
      by (rule endsWith_two)
    with m(1) show False by (auto simp: suffix_to_prefix)
  next
    case 2
    with m show False by (auto simp: endsWith_def suffix_to_prefix)
  qed
qed

lemma static_not_document: "\<not> (is_static_path p \<and> is_document_path p)"
proof
  assume a: "is_static_path p \<and> is_document_path p"
  then obtain ext where e: "ext \<in> set static_extensions" "endsWith p (CHR ''.'' # ext)"
    by (auto simp: is_static_path_def list_ex_iff)
  from a consider "endsWith p ''.html''" | "p = ''/''"
    by (auto simp: is_document_path_def)
  then show False
  proof cases
    case 1
    with e(2) have "suffix (CHR ''.'' # ext) ''.html'' \<or> suffix ''.html'' (CHR ''.'' # ext)"
      by (rule endsWith_two)
    with e(1) show False by (auto simp: static_extensions_def suffix_to_prefix)
  next
    case 2
    with e show False by (auto simp: static_extensions_def endsWith_def suffix_to_prefix)
  qed
qed

text \<open>
  C9. The fetch listener leaves a cross-origin request alone whatever its suffix. A
  same-origin request goes to \<open>cacheFirst\<close> on the models partition when its path has
  a 3D-model extension, to \<open>staleWhileRevalidate\<close> on the static partition when it has
  a static-asset extension, to \<open>networkFirst\<close> on the runtime partition when it ends
  in \<open>.html\<close> or is the root path, and is left alone, with the state untouched, when
  no rule applies. No path satisfies two of the three rules, so the class is unique
  and the order of the tests decides nothing.
\<close>

theorem strategy_selector_classifies:
  "(origin request \<noteq> loc_origin loc \<longrightarrow> on_fetch loc net request st = (None, st))
   \<and> (origin request = loc_origin loc \<and> is_model_path (pathname request) \<longrightarrow>
        on_fetch loc net request st =
          (Some (fst (cacheFirst net request CACHE_NAMES_models st)),
           snd (cacheFirst net request CACHE_NAMES_models st)))
   \<and> (origin request = loc_origin loc \<and> is_static_path (pathname request) \<longrightarrow>
        on_fetch loc net request st =
          (Some (fst (staleWhileRevalidate net request CACHE_NAMES_static st)),
           snd (staleWhileRevalidate net request CACHE_NAMES_static st)))
   \<and> (origin request = loc_origin loc \<and> is_document_path (pathname request) \<longrightarrow>
        on_fetch loc net request st =
          (Some (fst (networkFirst net request CACHE_NAMES_runtime st)),
           snd (networkFirst net request CACHE_NAMES_runtime st)))
   \<and> (\<not> is_model_path (pathname request) \<and> \<not> is_static_path (pathname request)
        \<and> \<not> is_document_path (pathname request) \<longrightarrow> on_fetch loc net request st = (None, st))
   \<and> \<not> (is_model_path (pathname request) \<and> is_static_path (pathname request))
   \<and> \<not> (is_model_path (pathname request) \<and> is_document_path (pathname request))
   \<and> \<not> (is_static_path (pathname request) \<and> is_document_path (pathname request))"
  using model_not_static [of "pathname request"] model_not_document [of "pathname request"]
    static_not_document [of "pathname request"]
  by (auto simp: on_fetch_def split: prod.splits)

lemma example_paths:
  "is_model_path ''/assets/3d/staff.glb''"
  "is_static_path ''/assets/css/main.css''"
  "is_document_path ''/index.html''"
  "is_document_path ''/''"
  "\<not> is_model_path ''/api/data.json''"
  "\<not> is_static_path ''/api/data.json''"
  "\<not> is_document_path ''/api/data.json''"
  by (simp_all add: is_model_path_def is_static_path_def is_document_path_def
      static_extensions_def endsWith_def suffix_to_prefix)

theorem strategy_selector_classifies_witness:
  "on_fetch site online \<lparr>origin = ''https://cdn.example'', pathname = ''/assets/3d/staff.glb'',
        search = []\<rparr> initial_state = (None, initial_state)
   \<and> fst (on_fetch site online staff_glb initial_state)
       = Some (fst (cacheFirst online staff_glb CACHE_NAMES_models initial_state))
   \<and> fst (on_fetch site online main_css initial_state)
       = Some (fst (staleWhileRevalidate online main_css CACHE_NAMES_static initial_state))
   \<and> fst (on_fetch site online index_html initial_state)
       = Some (fst (networkFirst online index_html CACHE_NAMES_runtime initial_state))
   \<and> fst (on_fetch site online (site_url ''/'') initial_state)
       = Some (fst (networkFirst online (site_url ''/'') CACHE_NAMES_runtime initial_state))
   \<and> on_fetch site online (site_url ''/api/data.json'') initial_state = (None, initial_state)"
proof -
  note t = strategy_selector_classifies [where loc = site and net = online and st = initial_state]
  have o: "origin \<lparr>origin = ''https://cdn.example'', pathname = ''/assets/3d/staff.glb'',
        search = []\<rparr> \<noteq> loc_origin site"
    "origin staff_glb = loc_origin site" "origin main_css = loc_origin site"
    "origin index_html = loc_origin site" "origin (site_url ''/'') = loc_origin site"
    by (simp_all add: site_def site_url_def staff_glb_def main_css_def index_html_def)
  have q: "pathname staff_glb = ''/assets/3d/staff.glb''" "pathname main_css = ''/assets/css/main.css''"
    "pathname index_html = ''/index.html''" "pathname (site_url ''/'') = ''/''"
    "pathname (site_url ''/api/data.json'') = ''/api/data.json''"
    by (simp_all add: site_url_def staff_glb_def main_css_def index_html_def)
  have a: "on_fetch site online \<lparr>origin = ''https://cdn.example'',
        pathname = ''/assets/3d/staff.glb'', search = []\<rparr> initial_state = (None, initial_state)"
    using o(1) t [where request = "\<lparr>origin = ''https://cdn.example'',
        pathname = ''/assets/3d/staff.glb'', search = []\<rparr>"] by blast
  have b: "fst (on_fetch site online staff_glb initial_state)
       = Some (fst (cacheFirst online staff_glb CACHE_NAMES_models initial_state))"
    using o(2) q(1) example_paths(1) t [where request = staff_glb] by simp
  have c: "fst (on_fetch site online main_css initial_state)
       = Some (fst (staleWhileRevalidate online main_css CACHE_NAMES_static initial_state))"
    using o(3) q(2) example_paths(2) t [where request = main_css] by simp
  have d: "fst (on_fetch site online index_html initial_state)
       = Some (fst (networkFirst online index_html CACHE_NAMES_runtime initial_state))"
    using o(4) q(3) example_paths(3) t [where request = index_html] by simp
  have e: "fst (on_fetch site online (site_url ''/'') initial_state)
       = Some (fst (networkFirst online (site_url ''/'') CACHE_NAMES_runtime initial_state))"
    using o(5) q(4) example_paths(4) t [where request = "site_url ''/''"] by simp
  have f: "on_fetch site online (site_url ''/api/data.json'') initial_state = (None, initial_state)"
    using q(5) example_paths(5,6,7) t [where request = "site_url ''/api/data.json''"] by simp
  from a b c d e f show ?thesis by blast
qed

section \<open>Preservation of the storage invariants\<close>

lemma ea_initial: "entries_allowed A initial_state"
  by (simp add: entries_allowed_def initial_state_def)

lemma ea_caches_open: "entries_allowed A st \<Longrightarrow> entries_allowed A (caches_open n st)"
  by (auto simp: entries_allowed_def caches_open_def)

lemma ea_log_fetch: "entries_allowed A st \<Longrightarrow> entries_allowed A (log_fetch u st)"
  by (simp add: entries_allowed_def log_fetch_def)

lemma ea_netlog: "entries_allowed A (st\<lparr>netlog := l\<rparr>) = entries_allowed A st"
  by (simp add: entries_allowed_def)

lemma ea_flags:
  "entries_allowed A (st\<lparr>skipWaitingCalled := b\<rparr>) = entries_allowed A st"
  "entries_allowed A (st\<lparr>clientsClaimed := b\<rparr>) = entries_allowed A st"
  by (simp_all add: entries_allowed_def)

lemma ea_start_put: "entries_allowed A st \<Longrightarrow> A n k r \<Longrightarrow> entries_allowed A (start_put n k r st)"
  by (auto simp: entries_allowed_def start_put_def)

lemma distinct_put_entry: "distinct (map fst p) \<Longrightarrow> distinct (map fst (put_entry k r p))"
  by (auto simp: put_entry_def distinct_map_filter)

lemma set_put_entry: "(k', r') \<in> set (put_entry k r p) \<Longrightarrow> (k', r') = (k, r) \<or> (k', r') \<in> set p"
  by (auto simp: put_entry_def)

lemma ea_write_entry: "entries_allowed A st \<Longrightarrow> A n k r \<Longrightarrow> entries_allowed A (write_entry n k r st)"
  unfolding entries_allowed_def write_entry_def
  by (auto simp: distinct_put_entry dest!: set_put_entry split: if_splits)

lemma ea_caches_delete: "entries_allowed A st \<Longrightarrow> entries_allowed A (caches_delete n st)"
  by (auto simp: entries_allowed_def caches_delete_def)

lemma ea_fold_delete: "entries_allowed A st \<Longrightarrow> entries_allowed A (fold caches_delete ns st)"
  by (induction ns arbitrary: st) (auto simp: ea_caches_delete)

lemma ea_fetch_and_put:
  "entries_allowed A st \<Longrightarrow> (\<And>r. ok r \<Longrightarrow> A n u r) \<Longrightarrow> entries_allowed A (fetch_and_put net n u st)"
  by (auto simp: fetch_and_put_def Let_def ea_log_fetch ea_write_entry split: sum.splits)

lemma ea_install_models:
  "entries_allowed A st \<Longrightarrow> (\<And>m r. m \<in> set ms \<Longrightarrow> ok r \<Longrightarrow> A CACHE_NAMES_models (resolve_url loc m) r)
   \<Longrightarrow> entries_allowed A (install_models loc net ms st)"
  by (induction ms arbitrary: st) (auto simp: ea_fetch_and_put)

lemma ea_preload_loop:
  "entries_allowed A st \<Longrightarrow> (\<And>u r. u \<in> set us \<Longrightarrow> ok r \<Longrightarrow> A n u r)
   \<Longrightarrow> entries_allowed A (preload_loop net n us st)"
  by (induction us arbitrary: st) (auto simp: ea_fetch_and_put split: option.splits)

lemma ea_preloader_loop:
  "entries_allowed A st \<Longrightarrow> (\<And>u r. u \<in> set us \<Longrightarrow> ok r \<Longrightarrow> A n u r)
   \<Longrightarrow> entries_allowed A (preloader_loop net n us st)"
  by (induction us arbitrary: st) (auto simp: ea_fetch_and_put preloadWithFetch_def split: option.splits)

lemma ea_put_all:
  "entries_allowed A st \<Longrightarrow> list_all (addAll_accepts net) us \<Longrightarrow> (\<And>u r. u \<in> set us \<Longrightarrow> ok r \<Longrightarrow> A n u r)
   \<Longrightarrow> entries_allowed A (put_all net n us st)"
  by (induction us arbitrary: st) (auto simp: ea_write_entry addAll_accepts_def split: sum.splits)

lemma ea_cache_addAll:
  "entries_allowed A st \<Longrightarrow> (\<And>u r. u \<in> set us \<Longrightarrow> ok r \<Longrightarrow> A n u r)
   \<Longrightarrow> entries_allowed A (snd (cache_addAll net n us st))"
  by (auto simp: cache_addAll_def Let_def ea_netlog intro!: ea_put_all)

lemma ea_settle_one: "entries_allowed A st \<Longrightarrow> entries_allowed A (settle_one st)"
proof (cases "pending st")
  case Nil
  assume "entries_allowed A st"
  with Nil show ?thesis by (simp add: settle_one_def)
next
  case (Cons x rest)
  assume a: "entries_allowed A st"
  obtain n k r where x: "x = (n, k, r)" by (cases x)
  from a Cons x have "A n k r" by (auto simp: entries_allowed_def)
  moreover from a Cons have "entries_allowed A (st\<lparr>pending := rest\<rparr>)"
    by (auto simp: entries_allowed_def)
  ultimately show ?thesis using Cons x by (simp add: settle_one_def ea_write_entry)
qed

lemma ea_cacheFirst:
  "entries_allowed A st \<Longrightarrow> (\<And>r. ok r \<Longrightarrow> A n req r) \<Longrightarrow> entries_allowed A (snd (cacheFirst net req n st))"
  by (auto simp: cacheFirst_def Let_def ea_caches_open ea_log_fetch ea_start_put split: option.splits sum.splits)

lemma ea_staleWhileRevalidate:
  "entries_allowed A st \<Longrightarrow> (\<And>r. ok r \<Longrightarrow> A n req r)
   \<Longrightarrow> entries_allowed A (snd (staleWhileRevalidate net req n st))"
proof (cases "cache_match st n req")
  case None
  assume "entries_allowed A st" "\<And>r. ok r \<Longrightarrow> A n req r"
  then show ?thesis
    by (auto simp: swr_miss [OF None] ea_caches_open ea_log_fetch ea_start_put split: sum.splits)
next
  case (Some c)
  assume "entries_allowed A st" "\<And>r. ok r \<Longrightarrow> A n req r"
  then show ?thesis
    by (auto simp: swr_hit [OF Some] entries_allowed_def start_background_fetch_def log_fetch_def)
qed

lemma ea_answer_one: "entries_allowed A st \<Longrightarrow> entries_allowed A (answer_one net st)"
proof (cases "inflight st")
  case Nil
  assume "entries_allowed A st"
  with Nil show ?thesis by (simp add: answer_one_def)
next
  case (Cons x rest)
  assume a: "entries_allowed A st"
  obtain n k c where x: "x = (n, k, c)" by (cases x)
  from a Cons x have "\<And>r. ok r \<Longrightarrow> A n k r" by (auto simp: entries_allowed_def)
  moreover from a Cons have "entries_allowed A (st\<lparr>inflight := rest\<rparr>)"
    by (auto simp: entries_allowed_def)
  ultimately show ?thesis using Cons x
    by (auto simp: answer_one_def fetchPromise_settled_def ea_start_put split: sum.splits)
qed

lemma ea_networkFirst:
  "entries_allowed A st \<Longrightarrow> (\<And>r. ok r \<Longrightarrow> A n req r) \<Longrightarrow> entries_allowed A (snd (networkFirst net req n st))"
  by (auto simp: networkFirst_def Let_def ea_caches_open ea_log_fetch ea_start_put split: option.splits sum.splits)

lemma names_differ:
  "CACHE_NAMES_static \<noteq> CACHE_NAMES_models" "CACHE_NAMES_runtime \<noteq> CACHE_NAMES_models"
  "CACHE_NAMES_runtime \<noteq> CACHE_NAMES_static"
  "''penta-3d-models-v1'' = CACHE_NAMES_models"
  by (simp_all add: CACHE_NAMES_static_def CACHE_NAMES_models_def CACHE_NAMES_runtime_def CACHE_VERSION_def)

lemma ea_install:
  assumes g: "entries_allowed A st"
    and other: "\<And>n k r. ok r \<Longrightarrow> n \<noteq> CACHE_NAMES_models \<Longrightarrow> A n k r"
    and manifest: "\<And>m r. m \<in> set MODEL_ASSETS \<Longrightarrow> ok r \<Longrightarrow> A CACHE_NAMES_models (resolve_url loc m) r"
  shows "entries_allowed A (snd (install loc net st))"
proof -
  let ?st3 = "caches_open CACHE_NAMES_static
     (install_models loc net MODEL_ASSETS (caches_open CACHE_NAMES_models st))"
  have "entries_allowed A ?st3"
    by (intro ea_caches_open ea_install_models g manifest)
  then have "entries_allowed A (snd (cache_addAll net CACHE_NAMES_static
      (map (resolve_url loc) STATIC_ASSETS) ?st3))"
    by (rule ea_cache_addAll) (simp add: other names_differ)
  then show ?thesis
    by (auto simp: install_def Let_def ea_flags split: prod.splits sum.splits)
qed

lemma ea_on_fetch:
  assumes g: "entries_allowed A st"
    and other: "\<And>n k r. ok r \<Longrightarrow> n \<noteq> CACHE_NAMES_models \<Longrightarrow> A n k r"
    and fetch: "\<And>r. origin req = loc_origin loc \<Longrightarrow> is_model_path (pathname req) \<Longrightarrow> ok r
        \<Longrightarrow> A CACHE_NAMES_models req r"
  shows "entries_allowed A (snd (on_fetch loc net req st))"
proof -
  have a: "origin req = loc_origin loc \<Longrightarrow> is_model_path (pathname req) \<Longrightarrow>
      entries_allowed A (snd (cacheFirst net req CACHE_NAMES_models st))"
    by (rule ea_cacheFirst [OF g]) (rule fetch)
  have b: "entries_allowed A (snd (staleWhileRevalidate net req CACHE_NAMES_static st))"
    by (rule ea_staleWhileRevalidate [OF g]) (simp add: other names_differ)
  have c: "entries_allowed A (snd (networkFirst net req CACHE_NAMES_runtime st))"
    by (rule ea_networkFirst [OF g]) (simp add: other names_differ)
  show ?thesis
    using a b c g by (auto simp: on_fetch_def split: prod.splits)
qed

lemma ea_preloadModels:
  assumes g: "entries_allowed A st"
    and manifest: "\<And>m r. m \<in> set MODEL_ASSETS \<Longrightarrow> ok r \<Longrightarrow> A CACHE_NAMES_models (resolve_url loc m) r"
  shows "entries_allowed A (preloadModels loc net st)"
  unfolding preloadModels_def
  by (rule ea_preload_loop [OF ea_caches_open [OF g]]) (auto simp: manifest)

lemma ea_on_message:
  assumes g: "entries_allowed A st"
    and manifest: "\<And>m r. m \<in> set MODEL_ASSETS \<Longrightarrow> ok r \<Longrightarrow> A CACHE_NAMES_models (resolve_url loc m) r"
  shows "entries_allowed A (snd (on_message loc net ev st))"
  using ea_preloadModels [OF g manifest, of net] g
  by (auto simp: on_message_def getCacheStatus_def Let_def clearAllCaches_def ea_caches_open ea_fold_delete)

lemma ea_page:
  assumes g: "entries_allowed A st"
    and page: "\<And>m r. m \<in> set ModelPreloader_models \<Longrightarrow> ok r \<Longrightarrow> A CACHE_NAMES_models (resolve_url ploc m) r"
  shows "entries_allowed A (preloadAllModels h ploc net st)"
    and "entries_allowed A (ensureAllCached h ploc net st)"
proof -
  have "entries_allowed A (preloader_loop net CACHE_NAMES_models
      (map (resolve_url ploc) ModelPreloader_models) (caches_open CACHE_NAMES_models st))"
    by (rule ea_preloader_loop [OF ea_caches_open [OF g]]) (auto simp: page)
  then show "entries_allowed A (preloadAllModels h ploc net st)"
    and "entries_allowed A (ensureAllCached h ploc net st)"
    using g by (simp_all add: preloadAllModels_def ensureAllCached_def names_differ)
qed

lemma ea_activate: "entries_allowed A st \<Longrightarrow> entries_allowed A (activate st)"
  by (simp add: activate_def Let_def ea_flags ea_fold_delete)

lemma step_keeps_ok: "entries_allowed (\<lambda>n k r. ok r) st \<Longrightarrow> entries_allowed (\<lambda>n k r. ok r) (step loc ev st)"
  by (cases ev)
     (simp_all add: ea_install ea_activate ea_on_fetch ea_on_message ea_settle_one ea_answer_one
       ea_page)

lemma run_keeps_ok: "entries_allowed (\<lambda>n k r. ok r) st \<Longrightarrow> entries_allowed (\<lambda>n k r. ok r) (run loc evs st)"
  unfolding run_def by (induction evs arbitrary: st) (simp_all add: step_keeps_ok)

lemma stored_responses_allowed:
  "entries_allowed (\<lambda>n k r. ok r) st \<Longrightarrow> r \<in> set (stored_responses st) \<Longrightarrow> ok r"
  by (auto simp: entries_allowed_def stored_responses_def)

lemma step_keeps_manifest:
  assumes "entries_allowed (in_manifest loc) st" "writes_manifest_only loc ev"
  shows "entries_allowed (in_manifest loc) (step loc ev st)"
proof (cases ev)
  case (Install net)
  then show ?thesis using assms by (simp add: ea_install in_manifest_def manifest_urls_def)
next
  case Activate
  then show ?thesis using assms by (simp add: ea_activate)
next
  case (Fetch net req)
  then show ?thesis using assms by (simp add: ea_on_fetch in_manifest_def)
next
  case (Message net m)
  then show ?thesis using assms by (simp add: ea_on_message in_manifest_def manifest_urls_def)
next
  case Settle
  then show ?thesis using assms by (simp add: ea_settle_one)
next
  case (Answer net)
  then show ?thesis using assms by (simp add: ea_answer_one)
next
  case (PagePreloadAll h ploc net)
  then show ?thesis using assms by (simp add: ea_page in_manifest_def list_all_iff)
next
  case (PageEnsureAll h ploc net)
  then show ?thesis using assms by (simp add: ea_page in_manifest_def list_all_iff)
qed

lemma run_keeps_manifest:
  "entries_allowed (in_manifest loc) st \<Longrightarrow> list_all (writes_manifest_only loc) evs
   \<Longrightarrow> entries_allowed (in_manifest loc) (run loc evs st)"
  unfolding run_def by (induction evs arbitrary: st) (simp_all add: step_keeps_manifest)

lemma partition_of_cases:
  "partition_of st n = [] \<or> (n, partition_of st n) \<in> set (storage st)"
  by (auto simp: partition_of_def split: option.splits dest: map_of_SomeD)

lemma manifest_bound:
  assumes "entries_allowed (in_manifest loc) st"
  shows "length (partition_of st CACHE_NAMES_models) \<le> length MODEL_ASSETS"
proof -
  let ?p = "partition_of st CACHE_NAMES_models"
  have "distinct (map fst ?p) \<and> set (map fst ?p) \<subseteq> set (manifest_urls loc)"
  proof (cases "?p = []")
    case True
    then show ?thesis by simp
  next
    case False
    then have "(CACHE_NAMES_models, ?p) \<in> set (storage st)"
      using partition_of_cases [of st CACHE_NAMES_models] by simp
    with assms have "distinct (map fst ?p)"
      and "\<forall>k r. (k, r) \<in> set ?p \<longrightarrow> k \<in> set (manifest_urls loc)"
      unfolding entries_allowed_def in_manifest_def by blast+
    then show ?thesis by auto
  qed
  then have d: "distinct (map fst ?p)" and s: "set (map fst ?p) \<subseteq> set (manifest_urls loc)"
    by simp_all
  have "length ?p = card (set (map fst ?p))"
    using distinct_card [OF d] by simp
  also have "\<dots> \<le> card (set (manifest_urls loc))"
    using s by (rule card_mono [rotated]) simp
  also have "\<dots> \<le> length (manifest_urls loc)" by (rule card_length)
  finally show ?thesis by (simp add: manifest_urls_def)
qed

section \<open>Install\<close>

lemma netlog_fetch_and_put [simp]: "netlog (fetch_and_put net n u st) = netlog st @ [u]"
  by (simp add: fetch_and_put_def Let_def log_fetch_def split: sum.splits)

lemma caches_keys_fetch_and_put [simp]: "caches_keys (fetch_and_put net n u st) = caches_keys st"
  by (simp add: fetch_and_put_def Let_def split: sum.splits)

lemma caches_keys_install_models [simp]: "caches_keys (install_models loc net ms st) = caches_keys st"
  by (induction ms arbitrary: st) simp_all

lemma netlog_install_models:
  "netlog (install_models loc net ms st) = netlog st @ map (resolve_url loc) ms"
  by (induction ms arbitrary: st) simp_all

lemma cache_match_fetch_and_put:
  "cache_match (fetch_and_put net n u st) n' k =
     (if n' = n \<and> n \<in> set (caches_keys st) \<and> k = u then
        (case net u of Inl e \<Rightarrow> cache_match st n' k
         | Inr r \<Rightarrow> if ok r \<and> storable r then Some r else cache_match st n' k)
      else cache_match st n' k)"
  by (simp add: fetch_and_put_def Let_def cache_match_write_entry split: sum.splits)

lemma cache_match_install_models:
  "CACHE_NAMES_models \<in> set (caches_keys st) \<Longrightarrow>
   cache_match (install_models loc net ms st) CACHE_NAMES_models k =
     (if k \<in> resolve_url loc ` set ms then
        (case net k of Inl e \<Rightarrow> cache_match st CACHE_NAMES_models k
         | Inr r \<Rightarrow> if ok r \<and> storable r then Some r else cache_match st CACHE_NAMES_models k)
      else cache_match st CACHE_NAMES_models k)"
proof (induction ms arbitrary: st)
  case Nil
  show ?case by simp
next
  case (Cons m ms)
  show ?case
    using Cons.prems
    by (simp add: Cons.IH cache_match_fetch_and_put split: sum.splits)
qed

lemma partition_of_write_entry_other:
  "n' \<noteq> n \<Longrightarrow> partition_of (write_entry n k r st) n' = partition_of st n'"
  by (simp add: partition_of_def write_entry_def map_of_storage_put)

lemma partition_of_log_fetch [simp]: "partition_of (log_fetch u st) n = partition_of st n"
  by (simp add: partition_of_def log_fetch_def)

lemma partition_of_fetch_and_put_other:
  "n' \<noteq> n \<Longrightarrow> partition_of (fetch_and_put net n u st) n' = partition_of st n'"
  by (simp add: fetch_and_put_def Let_def partition_of_write_entry_other split: sum.splits)

lemma partition_of_install_models_other:
  "n' \<noteq> CACHE_NAMES_models \<Longrightarrow> partition_of (install_models loc net ms st) n' = partition_of st n'"
  by (induction ms arbitrary: st) (simp_all add: partition_of_fetch_and_put_other)

lemma partition_of_put_all_other:
  "n' \<noteq> n \<Longrightarrow> partition_of (put_all net n us st) n' = partition_of st n'"
  by (induction us arbitrary: st) (simp_all add: partition_of_write_entry_other split: sum.splits)

lemma netlog_put_all [simp]: "netlog (put_all net n us st) = netlog st"
  by (induction us arbitrary: st) (simp_all split: sum.splits)

lemma skip_write_entry [simp]: "skipWaitingCalled (write_entry n k r st) = skipWaitingCalled st"
  by (simp add: write_entry_def)

lemma skip_fetch_and_put [simp]: "skipWaitingCalled (fetch_and_put net n u st) = skipWaitingCalled st"
  by (simp add: fetch_and_put_def Let_def log_fetch_def split: sum.splits)

lemma skip_install_models [simp]: "skipWaitingCalled (install_models loc net ms st) = skipWaitingCalled st"
  by (induction ms arbitrary: st) simp_all

lemma skip_caches_open [simp]: "skipWaitingCalled (caches_open n st) = skipWaitingCalled st"
  by (simp add: caches_open_def)

lemma netlog_caches_open [simp]: "netlog (caches_open n st) = netlog st"
  by (simp add: caches_open_def)

lemma partition_of_netlog [simp]: "partition_of (st\<lparr>netlog := l\<rparr>) n = partition_of st n"
  by (simp add: partition_of_def)

lemma partition_of_skip [simp]: "partition_of (st\<lparr>skipWaitingCalled := b\<rparr>) n = partition_of st n"
  by (simp add: partition_of_def)

lemma install_result:
  "install loc net st =
     (let st3 = caches_open CACHE_NAMES_static
                  (install_models loc net MODEL_ASSETS (caches_open CACHE_NAMES_models st));
          reqs = map (resolve_url loc) STATIC_ASSETS;
          st4 = st3\<lparr>netlog := netlog st3 @ reqs\<rparr>
      in if list_all (addAll_accepts net) reqs
         then (Inr (), (put_all net CACHE_NAMES_static reqs st4)\<lparr>skipWaitingCalled := True\<rparr>)
         else (Inl (TypeError ''Request failed''), st4))"
  by (simp add: install_def cache_addAll_def Let_def)

lemma partition_models_install:
  "partition_of (snd (install loc net st)) CACHE_NAMES_models
     = partition_of (install_models loc net MODEL_ASSETS (caches_open CACHE_NAMES_models st))
         CACHE_NAMES_models"
  using names_differ(1) [symmetric]
  by (simp add: install_result Let_def partition_of_put_all_other)

lemma cache_match_models_install:
  "cache_match (snd (install loc net st)) CACHE_NAMES_models k =
     (if k \<in> resolve_url loc ` set MODEL_ASSETS then
        (case net k of Inl e \<Rightarrow> cache_match st CACHE_NAMES_models k
         | Inr r \<Rightarrow> if ok r \<and> storable r then Some r else cache_match st CACHE_NAMES_models k)
      else cache_match st CACHE_NAMES_models k)"
proof -
  have k: "CACHE_NAMES_models \<in> set (caches_keys (caches_open CACHE_NAMES_models st))"
    by (simp add: caches_keys_caches_open)
  have "cache_match (snd (install loc net st)) CACHE_NAMES_models k
      = cache_match (install_models loc net MODEL_ASSETS (caches_open CACHE_NAMES_models st))
          CACHE_NAMES_models k"
    by (simp add: cache_match_def partition_models_install)
  then show ?thesis
    by (simp add: cache_match_install_models [OF k] split: sum.splits)
qed

lemma partition_of_write_entry_same:
  "n \<in> set (caches_keys st) \<Longrightarrow>
   partition_of (write_entry n k r st) n = put_entry k r (partition_of st n)"
  by (auto simp: partition_of_def write_entry_def map_of_storage_put in_keys_iff
      split: option.splits)

lemma keys_put_entry_new:
  "k \<notin> set (map fst p) \<Longrightarrow> map fst (put_entry k r p) = map fst p @ [k]"
proof -
  assume "k \<notin> set (map fst p)"
  then have "filter (\<lambda>e. fst e \<noteq> k) p = p"
    by (auto simp: filter_id_conv)
  then show ?thesis by (simp add: put_entry_def)
qed

lemma keys_fetch_and_put:
  assumes "n \<in> set (caches_keys st)" "u \<notin> set (map fst (partition_of st n))"
  shows "map fst (partition_of (fetch_and_put net n u st) n)
     = map fst (partition_of st n) @ (if addAll_accepts net u then [u] else [])"
  using assms
  by (simp add: fetch_and_put_def Let_def addAll_accepts_def partition_of_write_entry_same
      keys_put_entry_new split: sum.splits)

lemma keys_install_models:
  "CACHE_NAMES_models \<in> set (caches_keys st) \<Longrightarrow>
   distinct (map (resolve_url loc) ms) \<Longrightarrow>
   set (map (resolve_url loc) ms) \<inter> set (map fst (partition_of st CACHE_NAMES_models)) = {} \<Longrightarrow>
   map fst (partition_of (install_models loc net ms st) CACHE_NAMES_models)
     = map fst (partition_of st CACHE_NAMES_models)
       @ filter (addAll_accepts net) (map (resolve_url loc) ms)"
proof (induction ms arbitrary: st)
  case Nil
  show ?case by simp
next
  case (Cons m ms)
  let ?u = "resolve_url loc m"
  let ?st = "fetch_and_put net CACHE_NAMES_models ?u st"
  have u: "?u \<notin> set (map fst (partition_of st CACHE_NAMES_models))"
    using Cons.prems(3) by auto
  have k: "map fst (partition_of ?st CACHE_NAMES_models)
      = map fst (partition_of st CACHE_NAMES_models) @ (if addAll_accepts net ?u then [?u] else [])"
    using Cons.prems(1) u by (rule keys_fetch_and_put)
  have k1: "CACHE_NAMES_models \<in> set (caches_keys ?st)"
    using Cons.prems(1) by simp
  have d1: "distinct (map (resolve_url loc) ms)"
    using Cons.prems(2) by simp
  have u2: "?u \<notin> set (map (resolve_url loc) ms)"
    using Cons.prems(2) by simp
  have d0: "set (map (resolve_url loc) ms) \<inter> set (map fst (partition_of st CACHE_NAMES_models)) = {}"
    using Cons.prems(3) by auto
  have d: "set (map (resolve_url loc) ms) \<inter> set (map fst (partition_of ?st CACHE_NAMES_models)) = {}"
  proof (cases "addAll_accepts net ?u")
    case True
    have "set (map fst (partition_of ?st CACHE_NAMES_models))
        = insert ?u (set (map fst (partition_of st CACHE_NAMES_models)))"
      unfolding k using True by simp
    then show ?thesis using u2 d0 by simp
  next
    case False
    then show ?thesis unfolding k using d0 by simp
  qed
  have "map fst (partition_of (install_models loc net ms ?st) CACHE_NAMES_models)
      = map fst (partition_of ?st CACHE_NAMES_models)
        @ filter (addAll_accepts net) (map (resolve_url loc) ms)"
    by (rule Cons.IH [OF k1 d1 d])
  then show ?case unfolding k by simp
qed

lemma distinct_manifest: "distinct (map (resolve_url loc) MODEL_ASSETS)"
  by (simp add: MODEL_ASSETS_def resolve_url_def)

lemma cache_match_put_all:
  "n \<in> set (caches_keys st) \<Longrightarrow>
   cache_match (put_all net n us st) n k =
     (if k \<in> set us then (case net k of Inl e \<Rightarrow> cache_match st n k | Inr r \<Rightarrow> Some r)
      else cache_match st n k)"
proof (induction us arbitrary: st)
  case Nil
  show ?case by simp
next
  case (Cons u us)
  show ?case
    using Cons.prems
    by (simp add: Cons.IH cache_match_write_entry split: sum.splits)
qed

lemma cache_match_netlog [simp]: "cache_match (st\<lparr>netlog := l\<rparr>) n k = cache_match st n k"
  by (simp add: cache_match_def)

lemma cache_match_skip [simp]: "cache_match (st\<lparr>skipWaitingCalled := b\<rparr>) n k = cache_match st n k"
  by (simp add: cache_match_def)

lemma caches_keys_netlog [simp]: "caches_keys (st\<lparr>netlog := l\<rparr>) = caches_keys st"
  by (simp add: caches_keys_def)

text \<open>
  C7. When every static asset is fetched with an ok response that the cache takes,
  install completes and calls \<open>skipWaiting\<close>, and every static asset is in the
  static partition, whatever happens to the model fetches and stores. For every model
  of the manifest the models partition afterwards holds the fetched response when the
  fetch brought an ok response and the store took it, and otherwise what it held
  before: a rejected fetch, a response that is not ok and a rejected store are
  skipped. When one static asset fails (fetch rejected, response not ok or refused by
  the cache), install rejects, the static partition is as before and \<open>skipWaiting\<close>
  is not called. In both cases the network is asked for the models in manifest order,
  one after the other, and only then for the static assets; and the keys that install
  adds to an empty models partition are the stored models in manifest order.
\<close>

theorem install_tolerates_models_not_statics:
  "(list_all (addAll_accepts net) (map (resolve_url loc) STATIC_ASSETS) \<longrightarrow>
      fst (install loc net st) = Inr () \<and> skipWaitingCalled (snd (install loc net st))
      \<and> (\<forall>a \<in> set STATIC_ASSETS.
            map_option Inr (cache_match (snd (install loc net st)) CACHE_NAMES_static
               (resolve_url loc a)) = Some (net (resolve_url loc a))))
   \<and> (\<forall>m \<in> set MODEL_ASSETS.
        cache_match (snd (install loc net st)) CACHE_NAMES_models (resolve_url loc m) =
          (case net (resolve_url loc m) of
             Inl e \<Rightarrow> cache_match st CACHE_NAMES_models (resolve_url loc m)
           | Inr r \<Rightarrow> if ok r \<and> storable r then Some r
                      else cache_match st CACHE_NAMES_models (resolve_url loc m)))
   \<and> ((\<exists>a \<in> set STATIC_ASSETS. \<not> addAll_accepts net (resolve_url loc a)) \<longrightarrow>
        fst (install loc net st) = Inl (TypeError ''Request failed'')
        \<and> partition_of (snd (install loc net st)) CACHE_NAMES_static
            = partition_of st CACHE_NAMES_static
        \<and> skipWaitingCalled (snd (install loc net st)) = skipWaitingCalled st)
   \<and> netlog (snd (install loc net st))
       = netlog st @ map (resolve_url loc) MODEL_ASSETS @ map (resolve_url loc) STATIC_ASSETS
   \<and> (partition_of st CACHE_NAMES_models = [] \<longrightarrow>
        map fst (partition_of (snd (install loc net st)) CACHE_NAMES_models)
          = filter (addAll_accepts net) (map (resolve_url loc) MODEL_ASSETS))"
proof (intro conjI impI ballI)
  assume a: "list_all (addAll_accepts net) (map (resolve_url loc) STATIC_ASSETS)"
  then show "fst (install loc net st) = Inr ()" "skipWaitingCalled (snd (install loc net st))"
    by (simp_all add: install_result Let_def)
  fix x assume x: "x \<in> set STATIC_ASSETS"
  with a have "addAll_accepts net (resolve_url loc x)"
    by (simp add: list_all_iff)
  then obtain r where r: "net (resolve_url loc x) = Inr r"
    by (cases "net (resolve_url loc x)") (simp_all add: addAll_accepts_def)
  have k: "CACHE_NAMES_static \<in> set (caches_keys (caches_open CACHE_NAMES_static s))" for s
    by (simp add: caches_keys_caches_open)
  show "map_option Inr (cache_match (snd (install loc net st)) CACHE_NAMES_static
               (resolve_url loc x)) = Some (net (resolve_url loc x))"
    using a x r by (simp add: install_result Let_def cache_match_put_all k)
next
  fix m assume "m \<in> set MODEL_ASSETS"
  then show "cache_match (snd (install loc net st)) CACHE_NAMES_models (resolve_url loc m) =
          (case net (resolve_url loc m) of
             Inl e \<Rightarrow> cache_match st CACHE_NAMES_models (resolve_url loc m)
           | Inr r \<Rightarrow> if ok r \<and> storable r then Some r
                      else cache_match st CACHE_NAMES_models (resolve_url loc m))"
    by (simp add: cache_match_models_install)
next
  assume "\<exists>a \<in> set STATIC_ASSETS. \<not> addAll_accepts net (resolve_url loc a)"
  then have f: "\<not> list_all (addAll_accepts net) (map (resolve_url loc) STATIC_ASSETS)"
    by (auto simp: list_all_iff)
  show "fst (install loc net st) = Inl (TypeError ''Request failed'')"
    using f by (simp add: install_result Let_def)
  show "partition_of (snd (install loc net st)) CACHE_NAMES_static = partition_of st CACHE_NAMES_static"
    using f names_differ(1) by (simp add: install_result Let_def partition_of_install_models_other)
  show "skipWaitingCalled (snd (install loc net st)) = skipWaitingCalled st"
    using f by (simp add: install_result Let_def)
next
  show "netlog (snd (install loc net st))
       = netlog st @ map (resolve_url loc) MODEL_ASSETS @ map (resolve_url loc) STATIC_ASSETS"
    by (simp add: install_result Let_def netlog_install_models)
next
  assume e: "partition_of st CACHE_NAMES_models = []"
  have k: "CACHE_NAMES_models \<in> set (caches_keys (caches_open CACHE_NAMES_models st))"
    by (simp add: caches_keys_caches_open)
  have "map fst (partition_of (install_models loc net MODEL_ASSETS
          (caches_open CACHE_NAMES_models st)) CACHE_NAMES_models)
      = map fst (partition_of (caches_open CACHE_NAMES_models st) CACHE_NAMES_models)
        @ filter (addAll_accepts net) (map (resolve_url loc) MODEL_ASSETS)"
    using k distinct_manifest by (rule keys_install_models) (simp add: e)
  then show "map fst (partition_of (snd (install loc net st)) CACHE_NAMES_models)
          = filter (addAll_accepts net) (map (resolve_url loc) MODEL_ASSETS)"
    by (simp add: partition_models_install e)
qed

theorem install_tolerates_models_not_statics_witness:
  "list_all (addAll_accepts models_flaky) (map (resolve_url site) STATIC_ASSETS)
   \<and> fst (install site models_flaky initial_state) = Inr ()
   \<and> cache_match (snd (install site models_flaky initial_state)) CACHE_NAMES_static main_css
        = Some (fresh main_css)
   \<and> models_flaky staff_glb = Inl (NetworkError ''Failed to fetch'')
   \<and> cache_match (snd (install site models_flaky initial_state)) CACHE_NAMES_models staff_glb = None
   \<and> (models_flaky (site_url ''/assets/3d/technical.glb'') = Inr partial_content
        \<and> ok partial_content \<and> \<not> storable partial_content)
   \<and> cache_match (snd (install site models_flaky initial_state)) CACHE_NAMES_models
        (site_url ''/assets/3d/technical.glb'') = None
   \<and> cache_match (snd (install site models_flaky initial_state)) CACHE_NAMES_models
        (site_url ''/assets/3d/decoration.glb'') = Some (fresh (site_url ''/assets/3d/decoration.glb''))
   \<and> map fst (partition_of (snd (install site models_flaky initial_state)) CACHE_NAMES_models)
        = map site_url [''/assets/3d/logo_3d_just_icon.glb'', ''/assets/3d/corparete_event.glb'',
            ''/assets/3d/decoration.glb'']
   \<and> \<not> addAll_accepts logo_missing (resolve_url site ''./assets/images/logo.png'')
   \<and> fst (install site logo_missing initial_state) = Inl (TypeError ''Request failed'')
   \<and> partition_of (snd (install site logo_missing initial_state)) CACHE_NAMES_static = []
   \<and> \<not> addAll_accepts css_ranged (resolve_url site ''./assets/css/main.css'')
   \<and> fst (install site css_ranged initial_state) = Inl (TypeError ''Request failed'')
   \<and> netlog (snd (install site models_flaky initial_state))
       = map (resolve_url site) MODEL_ASSETS @ map (resolve_url site) STATIC_ASSETS"
proof -
  note t = install_tolerates_models_not_statics [where loc = site and st = initial_state]
  have s: "list_all (addAll_accepts models_flaky) (map (resolve_url site) STATIC_ASSETS)"
    by (simp add: addAll_accepts_def models_flaky_def STATIC_ASSETS_def resolve_url_def site_def
        fresh_def ok_def storable_def)
  have r: "resolve_url site ''./assets/3d/staff.glb'' = staff_glb"
    "resolve_url site ''./assets/3d/decoration.glb'' = site_url ''/assets/3d/decoration.glb''"
    "resolve_url site ''./assets/3d/technical.glb'' = site_url ''/assets/3d/technical.glb''"
    "resolve_url site ''./assets/css/main.css'' = main_css"
    by (simp_all add: resolve_url_def site_def staff_glb_def main_css_def site_url_def)
  have i: "''./assets/3d/staff.glb'' \<in> set MODEL_ASSETS" "''./assets/3d/decoration.glb'' \<in> set MODEL_ASSETS"
    "''./assets/3d/technical.glb'' \<in> set MODEL_ASSETS"
    "''./assets/images/logo.png'' \<in> set STATIC_ASSETS" "''./assets/css/main.css'' \<in> set STATIC_ASSETS"
    by (simp_all add: MODEL_ASSETS_def STATIC_ASSETS_def)
  have n: "models_flaky staff_glb = Inl (NetworkError ''Failed to fetch'')"
    "models_flaky (site_url ''/assets/3d/decoration.glb'') = Inr (fresh (site_url ''/assets/3d/decoration.glb''))"
    "ok (fresh (site_url ''/assets/3d/decoration.glb'')) \<and> storable (fresh (site_url ''/assets/3d/decoration.glb''))"
    "models_flaky (site_url ''/assets/3d/technical.glb'') = Inr partial_content
       \<and> ok partial_content \<and> \<not> storable partial_content"
    "models_flaky main_css = Inr (fresh main_css)"
    by (simp_all add: models_flaky_def staff_glb_def main_css_def site_url_def fresh_def ok_def
        storable_def partial_content_def)
  have z: "cache_match initial_state CACHE_NAMES_models u = None"
    "partition_of initial_state n = []" "netlog initial_state = []" for u n
    by (simp_all add: cache_match_def partition_of_def initial_state_def)
  have f: "\<not> addAll_accepts logo_missing (resolve_url site ''./assets/images/logo.png'')"
    "\<not> addAll_accepts css_ranged (resolve_url site ''./assets/css/main.css'')"
    by (simp_all add: addAll_accepts_def logo_missing_def css_ranged_def resolve_url_def site_def
        ok_def storable_def partial_content_def)
  have a: "fst (install site models_flaky initial_state) = Inr ()"
    using s t [where net = models_flaky] by blast
  have "map_option Inr (cache_match (snd (install site models_flaky initial_state))
      CACHE_NAMES_static (resolve_url site ''./assets/css/main.css''))
      = Some (models_flaky (resolve_url site ''./assets/css/main.css''))"
    using s i(5) t [where net = models_flaky] by blast
  then have a2: "cache_match (snd (install site models_flaky initial_state)) CACHE_NAMES_static
      main_css = Some (fresh main_css)"
    by (auto simp: r n(5))
  note m = t [where net = models_flaky, THEN conjunct2, THEN conjunct1, THEN bspec]
  have b: "cache_match (snd (install site models_flaky initial_state)) CACHE_NAMES_models staff_glb = None"
    using n(1) z(1) m [OF i(1)] by (simp add: r)
  have b2: "cache_match (snd (install site models_flaky initial_state)) CACHE_NAMES_models
        (site_url ''/assets/3d/technical.glb'') = None"
    using n(4) z(1) m [OF i(3)] by (simp add: r)
  have c: "cache_match (snd (install site models_flaky initial_state)) CACHE_NAMES_models
        (site_url ''/assets/3d/decoration.glb'') = Some (fresh (site_url ''/assets/3d/decoration.glb''))"
    using n(2,3) m [OF i(2)] by (simp add: r)
  have "map fst (partition_of (snd (install site models_flaky initial_state)) CACHE_NAMES_models)
        = filter (addAll_accepts models_flaky) (map (resolve_url site) MODEL_ASSETS)"
    using z(2) t [where net = models_flaky] by blast
  also have "\<dots> = map site_url [''/assets/3d/logo_3d_just_icon.glb'',
      ''/assets/3d/corparete_event.glb'', ''/assets/3d/decoration.glb'']"
    by (simp add: addAll_accepts_def models_flaky_def MODEL_ASSETS_def resolve_url_def site_def
        site_url_def fresh_def ok_def storable_def partial_content_def error_page_def)
  finally have o: "map fst (partition_of (snd (install site models_flaky initial_state))
      CACHE_NAMES_models) = map site_url [''/assets/3d/logo_3d_just_icon.glb'',
      ''/assets/3d/corparete_event.glb'', ''/assets/3d/decoration.glb'']" .
  have d: "fst (install site logo_missing initial_state) = Inl (TypeError ''Request failed'')
     \<and> partition_of (snd (install site logo_missing initial_state)) CACHE_NAMES_static = []"
    using i(4) f(1) z(2) t [where net = logo_missing] by auto
  have d2: "fst (install site css_ranged initial_state) = Inl (TypeError ''Request failed'')"
    using i(5) f(2) t [where net = css_ranged] by blast
  have e: "netlog (snd (install site models_flaky initial_state))
       = map (resolve_url site) MODEL_ASSETS @ map (resolve_url site) STATIC_ASSETS"
    using z(3) t [where net = models_flaky] by simp
  from s a a2 n(1) b n(4) b2 c o f d d2 e show ?thesis by blast
qed

section \<open>Only ok responses are stored\<close>

lemma not_ok_not_stored:
  assumes "net req = Inr r" "\<not> ok r"
  shows "storage (snd (cacheFirst net req name st)) = storage (caches_open name st)"
    and "pending (snd (cacheFirst net req name st)) = pending st"
    and "cache_match st name req = None \<Longrightarrow> fst (cacheFirst net req name st) = Inr (Some r)"
    and "storage (snd (staleWhileRevalidate net req name st)) = storage (caches_open name st)"
    and "pending (snd (staleWhileRevalidate net req name st)) = pending st"
    and "cache_match st name req = None \<Longrightarrow> fst (staleWhileRevalidate net req name st) = Inr (Some r)"
    and "storage (snd (networkFirst net req name st)) = storage (caches_open name st)"
    and "pending (snd (networkFirst net req name st)) = pending st"
    and "fst (networkFirst net req name st) = Inr (Some r)"
    and "storage (fetch_and_put net name req st) = storage st"
  using assms
  by (simp_all add: cacheFirst_def staleWhileRevalidate_def networkFirst_def fetch_and_put_def
      fetchPromise_settled_def Let_def split: option.splits)

text \<open>
  C10. In every state the worker reaches from the empty storage, by any sequence of
  installs, activations, fetches, control messages, settling writes, answers to
  background fetches and page-side preloads, under any behaviour of the network,
  every stored response and every response of a pending write is ok. A response that is not ok is returned by the
  strategy that fetched it (on a miss, for the two strategies that look up first) and
  leaves the storage and the pending writes as they were; the fetch-and-store step
  shared by install, force-preload and the page preloader skips it.
\<close>

theorem only_ok_responses_are_stored:
  "(\<forall>r \<in> set (stored_responses (run loc evs initial_state)). ok r)
   \<and> (\<forall>w \<in> set (pending (run loc evs initial_state)). ok (snd (snd w)))
   \<and> (net req = Inr r \<and> \<not> ok r \<longrightarrow>
        storage (snd (cacheFirst net req name st)) = storage (caches_open name st)
        \<and> pending (snd (cacheFirst net req name st)) = pending st
        \<and> (cache_match st name req = None \<longrightarrow> fst (cacheFirst net req name st) = Inr (Some r))
        \<and> storage (snd (staleWhileRevalidate net req name st)) = storage (caches_open name st)
        \<and> pending (snd (staleWhileRevalidate net req name st)) = pending st
        \<and> (cache_match st name req = None \<longrightarrow>
             fst (staleWhileRevalidate net req name st) = Inr (Some r))
        \<and> storage (snd (networkFirst net req name st)) = storage (caches_open name st)
        \<and> pending (snd (networkFirst net req name st)) = pending st
        \<and> fst (networkFirst net req name st) = Inr (Some r)
        \<and> storage (fetch_and_put net name req st) = storage st)"
proof -
  have g: "entries_allowed (\<lambda>n k r. ok r) (run loc evs initial_state)"
    by (intro run_keeps_ok ea_initial)
  have a: "\<forall>r \<in> set (stored_responses (run loc evs initial_state)). ok r"
    using g by (blast intro: stored_responses_allowed)
  have b: "\<forall>w \<in> set (pending (run loc evs initial_state)). ok (snd (snd w))"
    using g by (auto simp: entries_allowed_def)
  show ?thesis
    using a b by (simp add: not_ok_not_stored)
qed

theorem only_ok_responses_are_stored_witness:
  "list_all ok (stored_responses (run site
       [Install models_flaky, Fetch server_error home_animation_glb, Fetch online index_html,
        Settle, Message logo_missing preload_command, PagePreloadAll True site online]
       initial_state))
   \<and> stored_responses (run site
       [Fetch server_error staff_glb, Fetch online main_css, Settle, Fetch server_error index_html]
       initial_state) = [fresh main_css]
   \<and> (server_error staff_glb = Inr error_page \<and> \<not> ok error_page)
   \<and> fst (cacheFirst server_error staff_glb CACHE_NAMES_models initial_state) = Inr (Some error_page)
   \<and> pending (snd (cacheFirst server_error staff_glb CACHE_NAMES_models initial_state)) = []
   \<and> storage (fetch_and_put server_error CACHE_NAMES_models staff_glb warmed_state)
       = storage warmed_state"
proof -
  note t = only_ok_responses_are_stored [where loc = site and net = server_error
      and req = staff_glb and r = error_page and name = CACHE_NAMES_models]
  have h: "server_error staff_glb = Inr error_page \<and> \<not> ok error_page"
    by (simp add: server_error_def error_page_def ok_def)
  have m: "cache_match initial_state CACHE_NAMES_models staff_glb = None" "pending initial_state = []"
    by (simp_all add: cache_match_def partition_of_def initial_state_def)
  have a: "list_all ok (stored_responses (run site
       [Install models_flaky, Fetch server_error home_animation_glb, Fetch online index_html,
        Settle, Message logo_missing preload_command, PagePreloadAll True site online]
       initial_state))"
    using t [where evs = "[Install models_flaky, Fetch server_error home_animation_glb,
        Fetch online index_html, Settle, Message logo_missing preload_command,
        PagePreloadAll True site online]"]
    unfolding list_all_iff by blast
  have b: "stored_responses (run site
       [Fetch server_error staff_glb, Fetch online main_css, Settle, Fetch server_error index_html]
       initial_state) = [fresh main_css]"
    by (simp add: eval_defs run_def on_fetch_def is_model_path_def is_static_path_def
        is_document_path_def static_extensions_def endsWith_def suffix_to_prefix
        settle_one_def stored_responses_def)
  have c: "fst (cacheFirst server_error staff_glb CACHE_NAMES_models initial_state) = Inr (Some error_page)
     \<and> pending (snd (cacheFirst server_error staff_glb CACHE_NAMES_models initial_state)) = []"
    using h m t [where st = initial_state and evs = "[]"] by simp
  have d: "storage (fetch_and_put server_error CACHE_NAMES_models staff_glb warmed_state)
       = storage warmed_state"
    using h t [where st = warmed_state and evs = "[]"] by blast
  from a b h c d show ?thesis by blast
qed

section \<open>Cache status\<close>

text \<open>
  C5, as stated: in every reachable state the reply would have
  \<open>cachedCount \<le> totalModels\<close>. After an install that cached the six manifest
  models, \<open>cacheFirst\<close> handles a same-origin request for a seventh model file that
  is not in the manifest and stores it: the reply reports 7 cached of 6.
\<close>

theorem cache_status_count_exceeds_total:
  "fst (on_message site online status_query
      (run site [Install online, Fetch online home_animation_glb, Settle] initial_state))
    = Inr [(0, Status \<lparr>version = ''v1'',
         cachedModels = map site_url [''/assets/3d/logo_3d_just_icon.glb'',
           ''/assets/3d/corparete_event.glb'', ''/assets/3d/decoration.glb'',
           ''/assets/3d/staff.glb'', ''/assets/3d/technical.glb'', ''/assets/3d/transfer.glb'',
           ''/assets/3d/home_animation.glb''],
         totalModels = 6, cachedCount = 7\<rparr>)]
   \<and> \<not> cachedCount (fst (getCacheStatus
        (run site [Install online, Fetch online home_animation_glb, Settle] initial_state)))
       \<le> totalModels (fst (getCacheStatus
        (run site [Install online, Fetch online home_animation_glb, Settle] initial_state)))"
  by code_simp

text \<open>
  C5, amended. In every reachable state a \<open>CACHE_STATUS\<close> message that carries a reply
  port yields exactly one reply, on that port, with
  \<open>cachedModels.length = cachedCount\<close> and \<open>totalModels = 6\<close>; and
  \<open>cachedCount \<le> totalModels\<close> holds when the state was reached by events that write
  only manifest URLs into the models partition (install, activate, control messages,
  settling writes, fetches whose model-class requests are manifest assets, page
  preloads resolving to manifest URLs).
\<close>

theorem cache_status_reply:
  "msg_type ev = ''CACHE_STATUS'' \<and> ports ev \<noteq> [] \<longrightarrow>
     fst (on_message loc net ev (run loc evs initial_state))
       = Inr [(hd (ports ev), Status (fst (getCacheStatus (run loc evs initial_state))))]
     \<and> length (cachedModels (fst (getCacheStatus (run loc evs initial_state))))
       = cachedCount (fst (getCacheStatus (run loc evs initial_state)))
     \<and> totalModels (fst (getCacheStatus (run loc evs initial_state))) = 6
     \<and> (list_all (writes_manifest_only loc) evs \<longrightarrow>
          cachedCount (fst (getCacheStatus (run loc evs initial_state)))
            \<le> totalModels (fst (getCacheStatus (run loc evs initial_state))))"
proof (intro impI conjI)
  assume h: "msg_type ev = ''CACHE_STATUS'' \<and> ports ev \<noteq> []"
  then show "fst (on_message loc net ev (run loc evs initial_state))
       = Inr [(hd (ports ev), Status (fst (getCacheStatus (run loc evs initial_state))))]"
    by (cases "ports ev") (simp_all add: on_message_def post_reply_def split: prod.splits)
  show "length (cachedModels (fst (getCacheStatus (run loc evs initial_state))))
       = cachedCount (fst (getCacheStatus (run loc evs initial_state)))"
    by (simp add: getCacheStatus_def Let_def)
  show "totalModels (fst (getCacheStatus (run loc evs initial_state))) = 6"
    by (simp add: getCacheStatus_def Let_def MODEL_ASSETS_def)
  assume "list_all (writes_manifest_only loc) evs"
  then have "entries_allowed (in_manifest loc) (run loc evs initial_state)"
    by (intro run_keeps_manifest ea_initial)
  then show "cachedCount (fst (getCacheStatus (run loc evs initial_state)))
            \<le> totalModels (fst (getCacheStatus (run loc evs initial_state)))"
    by (simp add: getCacheStatus_def Let_def manifest_bound)
qed

theorem cache_status_reply_witness:
  "(msg_type status_query = ''CACHE_STATUS'' \<and> ports status_query \<noteq> [])
   \<and> list_all (writes_manifest_only site)
        [Install models_flaky, Message online preload_command, Fetch online staff_glb, Settle,
         Fetch online main_css, PagePreloadAll True site online, Activate]
   \<and> fst (on_message site offline status_query (run site
        [Install models_flaky, Message online preload_command, Fetch online staff_glb, Settle,
         Fetch online main_css, PagePreloadAll True site online, Activate] initial_state))
       = Inr [(0, Status (fst (getCacheStatus (run site
        [Install models_flaky, Message online preload_command, Fetch online staff_glb, Settle,
         Fetch online main_css, PagePreloadAll True site online, Activate] initial_state))))]
   \<and> cachedCount (fst (getCacheStatus (run site
        [Install models_flaky, Message online preload_command, Fetch online staff_glb, Settle,
         Fetch online main_css, PagePreloadAll True site online, Activate] initial_state)))
       \<le> totalModels (fst (getCacheStatus (run site
        [Install models_flaky, Message online preload_command, Fetch online staff_glb, Settle,
         Fetch online main_css, PagePreloadAll True site online, Activate] initial_state)))"
proof -
  have h: "msg_type status_query = ''CACHE_STATUS'' \<and> ports status_query \<noteq> []"
    "hd (ports status_query) = 0"
    by (simp_all add: status_query_def)
  have l: "list_all (writes_manifest_only site)
        [Install models_flaky, Message online preload_command, Fetch online staff_glb, Settle,
         Fetch online main_css, PagePreloadAll True site online, Activate]"
    by (simp add: manifest_urls_def MODEL_ASSETS_def ModelPreloader_models_def resolve_url_def
        site_def staff_glb_def main_css_def site_url_def is_model_path_def endsWith_def
        suffix_to_prefix)
  from h l cache_status_reply [where ev = status_query and loc = site and net = offline
      and evs = "[Install models_flaky, Message online preload_command, Fetch online staff_glb,
         Settle, Fetch online main_css, PagePreloadAll True site online, Activate]"]
  show ?thesis by simp
qed

end
